theory Spec2Isabelle
  imports Complex_Main "HOL-Library.Word" "HOL-Library.Sublist" "HOL-Library.Log_Nat"
begin

section \<open>Values shared by the adapter, the game API and the stores\<close>

text \<open>
  A value that travels along a rejected promise. \<open>Error m\<close> is an \<^verbatim>\<open>Error\<close> object
  with message \<open>m\<close>; \<open>NonError s\<close> is any other thrown value, \<open>s\<close> being what
  \<^verbatim>\<open>String(value)\<close> gives for it. The source tells the two apart with
  \<^verbatim>\<open>err instanceof Error\<close>.
\<close>

datatype thrown = Error string | NonError string

text \<open>\<^verbatim>\<open>error instanceof Error ? error.message : String(error)\<close>\<close>

fun message_or_string :: "thrown \<Rightarrow> string" where
  "message_or_string (Error m) = m"
| "message_or_string (NonError s) = s"

text \<open>\<^verbatim>\<open>err instanceof Error ? err.message : fallback\<close>\<close>

fun message_or :: "string \<Rightarrow> thrown \<Rightarrow> string" where
  "message_or fallback (Error m) = m"
| "message_or fallback (NonError s) = fallback"

text \<open>
  What \<^verbatim>\<open>localStorage\<close> holds under a key: a plain string, or the JSON text of an array
  of strings, identified with the list it encodes (only \<^verbatim>\<open>joinRoom\<close> writes one).
\<close>

datatype item = Str string | StrList "string list"

type_synonym storage = "string \<rightharpoonup> item"

section \<open>lineraAdapter.ts: the adapter singleton\<close>

text \<open>
  \<^verbatim>\<open>LineraConnection\<close>. The client, wallet and faucet handles are opaque objects of the
  WASM module; what they answer is given to each operation as its environment, so only the
  three strings are kept.
\<close>

record connection =
  chainId :: string
  address :: string
  autoSignerAddress :: string

text \<open>
  The handle that \<^verbatim>\<open>client.chain(c)\<close> followed by \<^verbatim>\<open>chain.application(a)\<close> resolves:
  it is identified by the chain and the application id it was resolved for.
\<close>

record application_handle =
  app_chain :: string
  app_id :: string

text \<open>\<^verbatim>\<open>ApplicationConnection\<close>\<close>

record app_connection =
  application :: application_handle
  applicationId :: string

text \<open>\<^verbatim>\<open>ConnectionState\<close>, what \<^verbatim>\<open>getState()\<close> hands out.\<close>

record connection_state =
  isConnected :: bool
  state_chainId :: "string option"
  userAddress :: "string option"
  state_autoSignerAddress :: "string option"

text \<open>
  The fields of \<^verbatim>\<open>LineraAdapterClass\<close> together with the browser's
  \<^verbatim>\<open>localStorage\<close>. \<open>connectPromise = Some a\<close> stands for the memoized promise of
  \<^verbatim>\<open>performConnect(wallet, faucetUrl, a)\<close>; \<open>None\<close> is \<^verbatim>\<open>null\<close>.
\<close>

record world =
  connection :: "connection option"
  appConnection :: "app_connection option"
  connectPromise :: "string option"
  localStorage :: storage

text \<open>
  What the code does to the outside, in order: the trace of an operation. Only the calls
  the specification talks about are recorded. \<open>AppQuery h q v\<close> is
  \<^verbatim>\<open>application.query(JSON.stringify({query: q, variables: v}))\<close> on the handle \<open>h\<close>;
  the variables of a GraphQL document are a list of named values.
\<close>

datatype gql_value = VStr string | VInt int | VNull

type_synonym variables = "(string \<times> gql_value) list"

datatype event =
    ClaimChain string
  | ChainSync string
  | AppQuery application_handle string variables
  | Sleep nat
  | ProcessInbox
  | Warn thrown

definition getState :: "world \<Rightarrow> connection_state" where
  "getState s =
     \<lparr>isConnected = (connection s \<noteq> None),
      state_chainId = map_option chainId (connection s),
      userAddress = map_option address (connection s),
      state_autoSignerAddress = map_option autoSignerAddress (connection s)\<rparr>"

definition getChainId :: "world \<Rightarrow> thrown + string" where
  "getChainId s =
     (case connection s of
        None \<Rightarrow> Inl (Error ''Not connected'')
      | Some c \<Rightarrow> Inr (chainId c))"

definition getUserAddress :: "world \<Rightarrow> thrown + string" where
  "getUserAddress s =
     (case connection s of
        None \<Rightarrow> Inl (Error ''Not connected'')
      | Some c \<Rightarrow> Inr (address c))"

subsection \<open>The response envelope and the environment of a remote call\<close>

text \<open>
  One entry of the envelope's \<^verbatim>\<open>errors\<close> array; \<open>None\<close> is an entry without a
  \<^verbatim>\<open>message\<close>.
\<close>

record gql_error =
  message :: "string option"

text \<open>
  The parsed response \<^verbatim>\<open>{data?, errors?: [{message}]}\<close>. \<open>errors = None\<close> is an
  envelope whose \<^verbatim>\<open>errors\<close> is absent or \<^verbatim>\<open>null\<close>, the only falsy values an
  array-typed field can take; every array, the empty one too, is truthy in JavaScript.
  \<open>data = None\<close> is \<^verbatim>\<open>undefined\<close>.
\<close>

record 'd envelope =
  data :: "'d option"
  errors :: "gql_error list option"

text \<open>
  What one resynchronisation attempt meets: \<^verbatim>\<open>client.chain(chainId)\<close> rejects, or it
  resolves to a chain without a \<^verbatim>\<open>processInbox\<close> function, or \<^verbatim>\<open>processInbox\<close>
  rejects or resolves.
\<close>

datatype sync_outcome =
    SyncFails thrown
  | SyncedNoInbox
  | InboxFails thrown
  | InboxProcessed

text \<open>
  The environment of one adapter call: the configured \<^verbatim>\<open>APPLICATION_ID\<close>, whether
  resolving the application handle rejects (\<open>bind\<close>), what
  \<^verbatim>\<open>application.query(payload)\<close> followed by \<^verbatim>\<open>JSON.parse\<close> yields (\<open>Inl\<close> when
  either throws), whether the \<^verbatim>\<open>client.chain\<close> of \<^verbatim>\<open>queryWithSync\<close> rejects, and
  what the \<open>i\<close>-th confirmation attempt of \<^verbatim>\<open>mutate\<close> meets.
\<close>

record 'd call_env =
  APPLICATION_ID :: string
  bind :: "thrown option"
  response :: "thrown + 'd envelope"
  pre_sync :: "thrown option"
  syncs :: "nat \<Rightarrow> sync_outcome"

subsection \<open>connectApplication, disconnect\<close>

definition connectApplication ::
  "thrown option \<Rightarrow> string \<Rightarrow> world \<Rightarrow> (thrown + app_connection) \<times> world \<times> event list" where
  "connectApplication bnd appId s =
     (case connection s of
        None \<Rightarrow> (Inl (Error ''Must connect wallet before connecting to application''), s, [])
      | Some c \<Rightarrow>
          (case (case appConnection s of
                   Some a \<Rightarrow> if applicationId a = appId then Some a else None
                 | None \<Rightarrow> None) of
             Some a \<Rightarrow> (Inr a, s, [])
           | None \<Rightarrow>
               if appId = [] then (Inl (Error ''Application ID is not configured''), s, [])
               else
                 (case bnd of
                    Some e \<Rightarrow> (Inl e, s, [ChainSync (chainId c)])
                  | None \<Rightarrow>
                      let a = \<lparr>application = \<lparr>app_chain = chainId c, app_id = appId\<rparr>,
                               applicationId = appId\<rparr>
                      in (Inr a, s\<lparr>appConnection := Some a\<rparr>, [ChainSync (chainId c)]))))"

text \<open>
  \<^verbatim>\<open>disconnect()\<close>: both fields to \<^verbatim>\<open>null\<close>, two \<^verbatim>\<open>removeItem\<close> calls, then every
  key that starts with \<^verbatim>\<open>chaincycles_mnemonic_\<close> is removed.
\<close>

definition disconnect :: "world \<Rightarrow> world" where
  "disconnect s =
     (let ls1 = (localStorage s)(''chaincycles_chain_id'' := None);
          ls2 = ls1(''chaincycles_user_address'' := None);
          ls3 = (\<lambda>key. if prefix ''chaincycles_mnemonic_'' key then None else ls2 key)
      in s\<lparr>connection := None, appConnection := None, localStorage := ls3\<rparr>)"

subsection \<open>query, mutate, queryWithSync\<close>

text \<open>\<^verbatim>\<open>parsed.errors[0]?.message || fallback\<close>\<close>

definition error_message :: "gql_error list \<Rightarrow> string \<Rightarrow> string" where
  "error_message es fallback =
     (case es of
        [] \<Rightarrow> fallback
      | e # _ \<Rightarrow>
          (case message e of
             None \<Rightarrow> fallback
           | Some m \<Rightarrow> if m = [] then fallback else m))"

text \<open>\<^verbatim>\<open>variables || {}\<close>\<close>

definition or_empty :: "variables option \<Rightarrow> variables" where
  "or_empty vars = (case vars of None \<Rightarrow> [] | Some v \<Rightarrow> v)"

text \<open>\<^verbatim>\<open>if (!this.appConnection) await this.connectApplication();\<close>\<close>

definition ensure_application ::
  "'d call_env \<Rightarrow> world \<Rightarrow> (thrown + app_connection) \<times> world \<times> event list" where
  "ensure_application env s =
     (case appConnection s of
        None \<Rightarrow> connectApplication (bind env) (APPLICATION_ID env) s
      | Some a \<Rightarrow> (Inr a, s, []))"

definition query ::
  "'d call_env \<Rightarrow> string \<Rightarrow> variables option \<Rightarrow> world
     \<Rightarrow> (thrown + 'd option) \<times> world \<times> event list" where
  "query env graphqlQuery vars s =
     (case connection s of
        None \<Rightarrow> (Inl (Error ''Must connect wallet before querying''), s, [])
      | Some c \<Rightarrow>
          (case ensure_application env s of
             (Inl e, s1, t1) \<Rightarrow> (Inl e, s1, t1)
           | (Inr a, s1, t1) \<Rightarrow>
               (let t2 = t1 @ [AppQuery (application a) graphqlQuery (or_empty vars)] in
                case response env of
                  Inl e \<Rightarrow> (Inl e, s1, t2)
                | Inr parsed \<Rightarrow>
                    (case errors parsed of
                       Some es \<Rightarrow> (Inl (Error (error_message es ''Query failed'')), s1, t2)
                     | None \<Rightarrow> (Inr (data parsed), s1, t2)))))"

text \<open>
  One pass of the loop \<^verbatim>\<open>for (let i = 0; i < 3; i++) { try { ... } catch { warn } }\<close>
  of \<^verbatim>\<open>mutate\<close>: sleep, \<^verbatim>\<open>client.chain\<close>, \<^verbatim>\<open>processInbox\<close> when the chain has one;
  whatever is thrown ends in \<^verbatim>\<open>console.warn\<close>. No other code touches the adapter
  while a call is in flight, so the \<^verbatim>\<open>this.connection\<close> the loop reads is the one
  the call found at its start.
\<close>

fun sync_attempt :: "connection \<Rightarrow> sync_outcome \<Rightarrow> event list" where
  "sync_attempt c (SyncFails e) = [Sleep 1000, ChainSync (chainId c), Warn e]"
| "sync_attempt c SyncedNoInbox = [Sleep 1000, ChainSync (chainId c)]"
| "sync_attempt c (InboxFails e) = [Sleep 1000, ChainSync (chainId c), ProcessInbox, Warn e]"
| "sync_attempt c InboxProcessed = [Sleep 1000, ChainSync (chainId c), ProcessInbox]"

definition wait_for_block :: "connection \<Rightarrow> (nat \<Rightarrow> sync_outcome) \<Rightarrow> event list" where
  "wait_for_block c outcomes = concat (map (\<lambda>i. sync_attempt c (outcomes i)) [0..<3])"

definition mutate ::
  "'d call_env \<Rightarrow> string \<Rightarrow> variables option \<Rightarrow> world
     \<Rightarrow> (thrown + 'd option) \<times> world \<times> event list" where
  "mutate env graphqlMutation vars s =
     (case connection s of
        None \<Rightarrow> (Inl (Error ''Must connect wallet before mutating''), s, [])
      | Some c \<Rightarrow>
          (case ensure_application env s of
             (Inl e, s1, t1) \<Rightarrow> (Inl e, s1, t1)
           | (Inr a, s1, t1) \<Rightarrow>
               (let t2 = t1 @ [AppQuery (application a) graphqlMutation (or_empty vars)] in
                case response env of
                  Inl e \<Rightarrow> (Inl e, s1, t2)
                | Inr parsed \<Rightarrow>
                    (case errors parsed of
                       Some es \<Rightarrow> (Inl (Error (error_message es ''Mutation failed'')), s1, t2)
                     | None \<Rightarrow> (Inr (data parsed), s1, t2 @ wait_for_block c (syncs env))))))"

definition queryWithSync ::
  "'d call_env \<Rightarrow> string \<Rightarrow> variables option \<Rightarrow> world
     \<Rightarrow> (thrown + 'd option) \<times> world \<times> event list" where
  "queryWithSync env graphqlQuery vars s =
     (case connection s of
        None \<Rightarrow> (Inl (Error ''Must connect wallet before querying''), s, [])
      | Some c \<Rightarrow>
          (let t0 = ChainSync (chainId c) #
                      (case pre_sync env of None \<Rightarrow> [] | Some e \<Rightarrow> [Warn e])
           in case query env graphqlQuery vars s of (r, s1, t1) \<Rightarrow> (r, s1, t0 @ t1)))"

subsection \<open>connect and performConnect\<close>

text \<open>
  \<^verbatim>\<open>String.prototype.toLowerCase\<close> on the ASCII letters; addresses are hexadecimal
  strings, so no other character is changed here.
\<close>

definition lower_char :: "char \<Rightarrow> char" where
  "lower_char c =
     (case map_of (zip ''ABCDEFGHIJKLMNOPQRSTUVWXYZ'' ''abcdefghijklmnopqrstuvwxyz'') c of
        None \<Rightarrow> c
      | Some l \<Rightarrow> l)"

definition toLowerCase :: "string \<Rightarrow> string" where
  "toLowerCase str = map lower_char str"

text \<open>
  \<^verbatim>\<open>DynamicWallet\<close>. An absent address and the empty one are both falsy and are both
  the empty string here. \<open>signMessage\<close> resolves (\<open>Inr\<close>) or rejects (\<open>Inl\<close>).
\<close>

record dynamic_wallet =
  wallet_address :: string
  signMessage :: "string \<Rightarrow> thrown + string"

text \<open>
  What the network and the WASM module answer to the steps of \<^verbatim>\<open>performConnect\<close>, in
  the order of the source: \<open>Some e\<close> (or \<open>Inl e\<close>) when the step throws \<open>e\<close>.
  \<open>createRandom\<close> yields the address of the fresh auto-signer, \<open>claimChain\<close> the chain
  id the faucet hands out. Writing to \<^verbatim>\<open>localStorage\<close> is taken to succeed.
\<close>

record connect_env =
  loadModule :: "thrown option"
  newFaucet :: "thrown option"
  createWallet :: "thrown option"
  createRandom :: "thrown + string"
  claimChain :: "thrown + string"
  setOwner :: "thrown option"
  newClient :: "thrown option"
  chainConnect :: "thrown option"

text \<open>The attempt gets as far as calling \<^verbatim>\<open>faucet.claimChain\<close>.\<close>

definition reaches_claim :: "connect_env \<Rightarrow> bool" where
  "reaches_claim env =
     (loadModule env = None \<and> newFaucet env = None \<and> createWallet env = None \<and>
      (case createRandom env of Inl e \<Rightarrow> False | Inr a \<Rightarrow> True))"

text \<open>
  The body of \<^verbatim>\<open>performConnect\<close>, run on the adapter as it is when the body ends: the
  body reads no field of the adapter, and writes \<^verbatim>\<open>this.connection\<close> and
  \<^verbatim>\<open>localStorage\<close> only in its last synchronous stretch (or \<^verbatim>\<open>this.connection = null\<close>
  in its \<^verbatim>\<open>catch\<close>).
\<close>

definition performConnect ::
  "connect_env \<Rightarrow> string \<Rightarrow> world \<Rightarrow> (thrown + connection) \<times> world \<times> event list" where
  "performConnect env usrAddress s =
     (let failed = (\<lambda>e t. (Inl e, s\<lparr>connection := None\<rparr>, t)) in
      case loadModule env of Some e \<Rightarrow> failed e [] | None \<Rightarrow>
      (case newFaucet env of Some e \<Rightarrow> failed e [] | None \<Rightarrow>
      (case createWallet env of Some e \<Rightarrow> failed e [] | None \<Rightarrow>
      (case createRandom env of Inl e \<Rightarrow> failed e [] | Inr autoSigner \<Rightarrow>
      (case claimChain env of Inl e \<Rightarrow> failed e [ClaimChain autoSigner] | Inr cid \<Rightarrow>
       (case setOwner env of Some e \<Rightarrow> failed e [ClaimChain autoSigner] | None \<Rightarrow>
       (case newClient env of Some e \<Rightarrow> failed e [ClaimChain autoSigner] | None \<Rightarrow>
       (case chainConnect env of
          Some e \<Rightarrow> failed e [ClaimChain autoSigner, ChainSync cid]
        | None \<Rightarrow>
            (let c = \<lparr>chainId = cid, address = usrAddress, autoSignerAddress = autoSigner\<rparr>;
                 ls1 = (localStorage s)(''chaincycles_chain_id'' \<mapsto> Str cid);
                 ls2 = ls1(''chaincycles_user_address'' \<mapsto> Str usrAddress);
                 ls3 = ls2(''chaincycles_auto_signer'' \<mapsto> Str autoSigner)
             in (Inr c, s\<lparr>connection := Some c, localStorage := ls3\<rparr>,
                 [ClaimChain autoSigner, ChainSync cid]))))))))))"

text \<open>
  Where a call of \<^verbatim>\<open>connect\<close> stands after its synchronous stretch: it has thrown, it
  has returned the current state, it awaits the promise another call memoized, or it has
  started \<^verbatim>\<open>performConnect\<close>, memoized its promise and awaits it.
\<close>

datatype connect_step =
    Threw thrown
  | Returned connection_state
  | Awaiting
  | Started

text \<open>\<^verbatim>\<open>connect\<close> up to its first \<^verbatim>\<open>await\<close>.\<close>

definition connect :: "dynamic_wallet \<Rightarrow> world \<Rightarrow> connect_step \<times> world" where
  "connect dynamicWallet s =
     (let usrAddress = toLowerCase (wallet_address dynamicWallet) in
      if usrAddress = [] then (Threw (Error ''Dynamic wallet has no address''), s)
      else if (case connection s of Some c \<Rightarrow> address c = usrAddress | None \<Rightarrow> False)
        then (Returned (getState s), s)
      else if connectPromise s \<noteq> None then (Awaiting, s)
      else (Started, s\<lparr>connectPromise := Some usrAddress\<rparr>))"

text \<open>
  \<^verbatim>\<open>connect\<close> from its \<^verbatim>\<open>await this.connectPromise\<close> on, once the promise has settled
  with \<open>Some outcome\<close>. The call that started the attempt also runs the \<^verbatim>\<open>finally\<close>
  block. While the promise is pending (\<open>None\<close>) an awaiting call stays suspended.
\<close>

fun connect_resume ::
  "connect_step \<Rightarrow> (thrown + connection) option \<Rightarrow> world
     \<Rightarrow> (thrown + connection_state) option \<times> world" where
  "connect_resume (Threw e) outcome s = (Some (Inl e), s)"
| "connect_resume (Returned st) outcome s = (Some (Inr st), s)"
| "connect_resume Awaiting None s = (None, s)"
| "connect_resume Awaiting (Some (Inl e)) s = (Some (Inl e), s)"
| "connect_resume Awaiting (Some (Inr c)) s = (Some (Inr (getState s)), s)"
| "connect_resume Started None s = (None, s)"
| "connect_resume Started (Some (Inl e)) s = (Some (Inl e), s\<lparr>connectPromise := None\<rparr>)"
| "connect_resume Started (Some (Inr c)) s =
     (Some (Inr (getState s)), s\<lparr>connectPromise := None\<rparr>)"

text \<open>The synchronous stretches of a batch of calls, in the order they are issued.\<close>

fun connect_calls :: "dynamic_wallet list \<Rightarrow> world \<Rightarrow> connect_step list \<times> world" where
  "connect_calls [] s = ([], s)"
| "connect_calls (w # ws) s =
     (case connect w s of (p, s1) \<Rightarrow>
        (case connect_calls ws s1 of (ps, s2) \<Rightarrow> (p # ps, s2)))"

text \<open>
  The continuations run in the order in which the calls began to wait, which is the order
  of the promise's reaction queue.
\<close>

fun resume_all ::
  "connect_step list \<Rightarrow> (thrown + connection) option \<Rightarrow> world
     \<Rightarrow> (thrown + connection_state) option list \<times> world" where
  "resume_all [] outcome s = ([], s)"
| "resume_all (p # ps) outcome s =
     (case connect_resume p outcome s of (r, s1) \<Rightarrow>
        (case resume_all ps outcome s1 of (rs, s2) \<Rightarrow> (r # rs, s2)))"

text \<open>The memoized attempt, if there is one, runs to its end.\<close>

definition settle ::
  "connect_env \<Rightarrow> world \<Rightarrow> (thrown + connection) option \<times> world \<times> event list" where
  "settle env s =
     (case connectPromise s of
        None \<Rightarrow> (None, s, [])
      | Some a \<Rightarrow> (case performConnect env a s of (r, s1, t) \<Rightarrow> (Some r, s1, t)))"

text \<open>
  Concurrent calls on the single thread of the event loop: the calls \<open>early\<close> are issued
  while the attempt is in flight, the attempt settles, the calls \<open>late\<close> are issued before
  any continuation has run, and then every continuation runs. The result is where each call
  stood when it began to wait, what each call's promise settles to, the adapter afterwards,
  and the trace of the attempt. Every \<open>Started\<close> among the steps is one run of
  \<^verbatim>\<open>performConnect\<close>; the run of the memoized promise is the one whose trace is given.
\<close>

definition concurrent_connects ::
  "connect_env \<Rightarrow> dynamic_wallet list \<Rightarrow> dynamic_wallet list \<Rightarrow> world
     \<Rightarrow> connect_step list \<times> (thrown + connection_state) option list \<times> world \<times> event list" where
  "concurrent_connects env early late s0 =
     (case connect_calls early s0 of (ps1, s1) \<Rightarrow>
        (case settle env s1 of (outcome, s2, t) \<Rightarrow>
           (case connect_calls late s2 of (ps2, s3) \<Rightarrow>
              (case resume_all (ps1 @ ps2) outcome s3 of (rs, s4) \<Rightarrow>
                 (ps1 @ ps2, rs, s4, t)))))"

text \<open>The number of partition claims in a trace.\<close>

definition claims :: "event list \<Rightarrow> nat" where
  "claims t = length (filter (\<lambda>e. case e of ClaimChain a \<Rightarrow> True | _ \<Rightarrow> False) t)"

section \<open>dynamicSigner.ts: the wallet-backed signer\<close>

definition hex_digit :: "nat \<Rightarrow> char" where
  "hex_digit n = ''0123456789abcdef'' ! n"

text \<open>\<^verbatim>\<open>b.toString(16)\<close> for a byte: one digit below 16, two from 16 on.\<close>

definition toString16 :: "8 word \<Rightarrow> string" where
  "toString16 b =
     (if unat b < 16 then [hex_digit (unat b)]
      else [hex_digit (unat b div 16), hex_digit (unat b mod 16)])"

definition padStart :: "nat \<Rightarrow> char \<Rightarrow> string \<Rightarrow> string" where
  "padStart n c str = replicate (n - length str) c @ str"

definition uint8ArrayToHex :: "8 word list \<Rightarrow> string" where
  "uint8ArrayToHex bytes = concat (map (\<lambda>b. padStart 2 CHR ''0'' (toString16 b)) bytes)"

text \<open>\<^verbatim>\<open>DynamicSigner\<close>: the wallet and the cached address.\<close>

record signer =
  wallet :: dynamic_wallet
  cachedAddress :: "string option"

definition DynamicSigner_address :: "signer \<Rightarrow> (thrown + string) \<times> signer" where
  "DynamicSigner_address sg =
     (case (case cachedAddress sg of Some a \<Rightarrow> if a = [] then None else Some a | None \<Rightarrow> None) of
        Some a \<Rightarrow> (Inr a, sg)
      | None \<Rightarrow>
          (let addr = wallet_address (wallet sg) in
           if addr = [] then (Inl (Error ''Dynamic wallet has no address''), sg)
           else (Inr (toLowerCase addr), sg\<lparr>cachedAddress := Some (toLowerCase addr)\<rparr>)))"

definition containsKey :: "string \<Rightarrow> signer \<Rightarrow> (thrown + bool) \<times> signer" where
  "containsKey owner sg =
     (case DynamicSigner_address sg of
        (Inl e, sg1) \<Rightarrow> (Inl e, sg1)
      | (Inr myAddress, sg1) \<Rightarrow> (Inr (toLowerCase owner = myAddress), sg1))"

definition sign :: "string \<Rightarrow> 8 word list \<Rightarrow> signer \<Rightarrow> (thrown + string) \<times> signer" where
  "sign owner val sg =
     (case DynamicSigner_address sg of
        (Inl e, sg1) \<Rightarrow> (Inl e, sg1)
      | (Inr myAddress, sg1) \<Rightarrow>
          if toLowerCase owner \<noteq> myAddress
          then (Inl (Error (''Owner '' @ owner @ '' does not match wallet address '' @ myAddress)),
                sg1)
          else
            (case signMessage (wallet sg1) (''0x'' @ uint8ArrayToHex val) of
               Inl err \<Rightarrow>
                 (Inl (Error (''Failed to sign with Dynamic wallet: '' @ message_or_string err)),
                  sg1)
             | Inr signature \<Rightarrow> (Inr signature, sg1)))"

section \<open>gameApi.ts: rooms, moves and polling\<close>

text \<open>The GraphQL documents, each shortened to its first line.\<close>

definition GET_ROOM :: string where
  "GET_ROOM = ''query GetRoom''"

definition CREATE_ROOM :: string where
  "CREATE_ROOM = ''mutation CreateRoom($gameType: GameType!)''"

definition JOIN_ROOM :: string where
  "JOIN_ROOM = ''mutation JoinRoom($hostChainId: String!)''"

definition LEAVE_ROOM :: string where
  "LEAVE_ROOM = ''mutation LeaveRoom''"

definition MAKE_MOVE :: string where
  "MAKE_MOVE = ''mutation MakeMove($primary: Int!, $secondary: String)''"

text \<open>\<^verbatim>\<open>MoveData\<close>\<close>

record move_data =
  primary :: int
  secondary :: "string option"

definition createRoom ::
  "'m call_env \<Rightarrow> string \<Rightarrow> world \<Rightarrow> (thrown + string) \<times> world \<times> event list" where
  "createRoom env gameType s =
     (case mutate env CREATE_ROOM (Some [(''gameType'', VStr gameType)]) s of
        (Inl e, s1, t) \<Rightarrow> (Inl e, s1, t)
      | (Inr d, s1, t) \<Rightarrow> (getChainId s1, s1, t))"

text \<open>
  \<^verbatim>\<open>JSON.parse(localStorage.getItem('chaincycles_recent_rooms') || '[]')\<close>. A stored
  text that is no array of strings makes the caller throw.
\<close>

definition getRecentRooms :: "storage \<Rightarrow> thrown + string list" where
  "getRecentRooms ls =
     (case ls ''chaincycles_recent_rooms'' of
        None \<Rightarrow> Inr []
      | Some (StrList recent) \<Rightarrow> Inr recent
      | Some (Str txt) \<Rightarrow>
          if txt = [] then Inr [] else Inl (Error ''recent rooms: not a JSON array''))"

definition joinRoom ::
  "'m call_env \<Rightarrow> string \<Rightarrow> world \<Rightarrow> (thrown + unit) \<times> world \<times> event list" where
  "joinRoom env hostChainId s =
     (case mutate env JOIN_ROOM (Some [(''hostChainId'', VStr hostChainId)]) s of
        (Inl e, s1, t) \<Rightarrow> (Inl e, s1, t)
      | (Inr d, s1, t) \<Rightarrow>
          (case getRecentRooms (localStorage s1) of
             Inl e \<Rightarrow> (Inl e, s1, t)
           | Inr recent \<Rightarrow>
               if hostChainId \<in> set recent then (Inr (), s1, t)
               else
                 (let unshifted = hostChainId # recent;
                      popped = (if length unshifted > 10 then butlast unshifted else unshifted)
                  in (Inr (),
                      s1\<lparr>localStorage :=
                           (localStorage s1)(''chaincycles_recent_rooms'' \<mapsto> StrList popped)\<rparr>,
                      t))))"

definition leaveRoom ::
  "'m call_env \<Rightarrow> world \<Rightarrow> (thrown + unit) \<times> world \<times> event list" where
  "leaveRoom env s =
     (case mutate env LEAVE_ROOM None s of
        (Inl e, s1, t) \<Rightarrow> (Inl e, s1, t)
      | (Inr d, s1, t) \<Rightarrow> (Inr (), s1, t))"

definition makeMove ::
  "'m call_env \<Rightarrow> move_data \<Rightarrow> world \<Rightarrow> (thrown + unit) \<times> world \<times> event list" where
  "makeMove env moveData s =
     (case mutate env MAKE_MOVE
             (Some [(''primary'', VInt (primary moveData)),
                    (''secondary'', case secondary moveData of None \<Rightarrow> VNull | Some x \<Rightarrow> VStr x)])
             s of
        (Inl e, s1, t) \<Rightarrow> (Inl e, s1, t)
      | (Inr d, s1, t) \<Rightarrow> (Inr (), s1, t))"

text \<open>
  The data of a room query is the object \<^verbatim>\<open>{room: GameRoom | null}\<close>, identified with
  its one field; \<^verbatim>\<open>result.room\<close> on an \<^verbatim>\<open>undefined\<close> result throws a TypeError.
\<close>

definition room_of :: "'r option option \<Rightarrow> thrown + 'r option" where
  "room_of result =
     (case result of
        None \<Rightarrow> Inl (Error ''Cannot read properties of undefined (reading room)'')
      | Some r \<Rightarrow> Inr r)"

definition getRoom ::
  "('r option) call_env \<Rightarrow> world \<Rightarrow> (thrown + 'r option) \<times> world \<times> event list" where
  "getRoom env s =
     (case query env GET_ROOM None s of
        (Inl e, s1, t) \<Rightarrow> (Inl e, s1, t)
      | (Inr result, s1, t) \<Rightarrow> (room_of result, s1, t))"

definition getRoomSynced ::
  "('r option) call_env \<Rightarrow> world \<Rightarrow> (thrown + 'r option) \<times> world \<times> event list" where
  "getRoomSynced env s =
     (case queryWithSync env GET_ROOM None s of
        (Inl e, s1, t) \<Rightarrow> (Inl e, s1, t)
      | (Inr result, s1, t) \<Rightarrow> (room_of result, s1, t))"

subsection \<open>pollRoomUpdates\<close>

text \<open>
  A JavaScript number is an IEEE 754 double: not a number, an infinity, or a finite value,
  given here by the real number it stands for (the two zeros are one value here: they set
  the same timer).
\<close>

datatype number = NaN | NegInf | Finite real | PosInf

text \<open>Powers of two with an integer exponent.\<close>

definition pow2 :: "int \<Rightarrow> real" where
  "pow2 k = (if 0 \<le> k then 2 ^ nat k else 1 / 2 ^ nat (- k))"

text \<open>
  The binary exponent of a positive real \<open>x\<close>: the \<open>k\<close> with
  \<open>pow2 k \<le> x < pow2 (k + 1)\<close>, from the bit length of the integer part of \<open>x\<close>, or of
  \<open>1 / x\<close> rounded up.
\<close>

definition ilog2 :: "real \<Rightarrow> int" where
  "ilog2 x = (if 1 \<le> x then bitlen \<lfloor>x\<rfloor> - 1 else - bitlen (\<lceil>1 / x\<rceil> - 1))"

text \<open>The nearest integer, the even one of two that are equally near.\<close>

definition round_half_even :: "real \<Rightarrow> int" where
  "round_half_even x =
     (let f = \<lfloor>x\<rfloor>; d = x - of_int f
      in if d < 1 / 2 then f else if 1 / 2 < d then f + 1 else if even f then f else f + 1)"

text \<open>
  Rounding a real to the nearest double, ties to even, as binary64 has it: 53 significant
  bits, so the quantum of a real with binary exponent \<open>k\<close> is \<open>pow2 (k - 52)\<close>, but never
  less than \<open>pow2 (- 1074)\<close>; the real is rounded to a multiple of its quantum, and a result
  of magnitude \<open>2 ^ 1024\<close> or more is an infinity.
\<close>

definition to_double :: "real \<Rightarrow> number" where
  "to_double x =
     (if x = 0 then Finite 0
      else
        (let q = max (ilog2 \<bar>x\<bar> - 52) (- 1074);
             r = of_int (round_half_even (x / pow2 q)) * pow2 q
         in if 2 ^ 1024 \<le> \<bar>r\<bar> then (if x < 0 then NegInf else PosInf) else Finite r))"

text \<open>
  \<^verbatim>\<open>currentInterval * 1.5\<close>: the factor is a double, so the product of two doubles is
  the exact product rounded.
\<close>

fun times_1_5 :: "number \<Rightarrow> number" where
  "times_1_5 NaN = NaN"
| "times_1_5 NegInf = NegInf"
| "times_1_5 PosInf = PosInf"
| "times_1_5 (Finite x) = to_double (x * 3 / 2)"

text \<open>\<^verbatim>\<open>Math.min\<close> of two numbers.\<close>

fun Math_min :: "number \<Rightarrow> number \<Rightarrow> number" where
  "Math_min NaN y = NaN"
| "Math_min x NaN = NaN"
| "Math_min NegInf y = NegInf"
| "Math_min x NegInf = NegInf"
| "Math_min PosInf y = y"
| "Math_min x PosInf = x"
| "Math_min (Finite x) (Finite y) = Finite (min x y)"

text \<open>The variables the closure \<^verbatim>\<open>poll\<close> captures.\<close>

record poll_state =
  currentInterval :: number
  lastRoom :: "string option"
  running :: bool
  pollCount :: nat

text \<open>
  The arguments of \<^verbatim>\<open>pollRoomUpdates\<close>, and \<^verbatim>\<open>JSON.stringify\<close> on rooms, which the
  loop uses as the fingerprint.
\<close>

record 'r poll_params =
  interval :: number
  maxInterval :: number
  maxPolls :: int
  stringify :: "'r option \<Rightarrow> string"

text \<open>
  What can be observed of the loop: a fetch is issued, the callback is called, a timer is
  set with a delay, the cancel function is invoked.
\<close>

datatype 'r poll_event = Fetch | Callback "'r option" | Timeout number | Cancel

text \<open>
  One iteration's share of the environment: what \<^verbatim>\<open>await getRoomSynced()\<close> settles to,
  and whether and when the cancel function is invoked around this iteration: while the
  fetch is in flight, by the callback itself, or while the timer runs.
\<close>

datatype cancel_point = NoCancel | DuringFetch | InCallback | DuringSleep

record 'r tick =
  fetched :: "thrown + 'r option"
  cancelled :: cancel_point

text \<open>The function \<^verbatim>\<open>pollRoomUpdates\<close> returns: \<^verbatim>\<open>() => { running = false; }\<close>\<close>

definition cancel :: "poll_state \<Rightarrow> poll_state" where
  "cancel s = s\<lparr>running := False\<rparr>"

text \<open>The \<^verbatim>\<open>try\<close> block of \<^verbatim>\<open>poll\<close> after the fetch has settled.\<close>

definition on_fetched ::
  "'r poll_params \<Rightarrow> thrown + 'r option \<Rightarrow> poll_state \<Rightarrow> 'r poll_event list \<times> poll_state" where
  "on_fetched p f s =
     (case f of
        Inl e \<Rightarrow> ([], s)
      | Inr rm \<Rightarrow>
          (let roomStr = stringify p rm in
           if Some roomStr \<noteq> lastRoom s
           then ([Callback rm], s\<lparr>lastRoom := Some roomStr, currentInterval := interval p\<rparr>)
           else ([], s\<lparr>currentInterval :=
                      Math_min (times_1_5 (currentInterval s)) (maxInterval p)\<rparr>)))"

text \<open>
  The cancel function is invoked at this point, or not: what it does to the closure's
  variables, and what shows in the trace.
\<close>

definition cancel_if :: "bool \<Rightarrow> poll_state \<Rightarrow> poll_state" where
  "cancel_if now s = (if now then cancel s else s)"

definition cancel_event :: "bool \<Rightarrow> 'r poll_event list" where
  "cancel_event now = (if now then [Cancel] else [])"

text \<open>
  The closure \<^verbatim>\<open>poll\<close>, rescheduling itself through \<^verbatim>\<open>setTimeout\<close>; each iteration
  takes the next tick of the environment, and the run ends when the loop halts or the
  environment has no further tick.
\<close>

fun poll ::
  "'r poll_params \<Rightarrow> 'r tick list \<Rightarrow> poll_state \<Rightarrow> 'r poll_event list \<times> poll_state" where
  "poll p [] s = ([], s)"
| "poll p (t # ts) s =
     (if \<not> running s then ([], s)
      else
        (let s1 = s\<lparr>pollCount := pollCount s + 1\<rparr> in
         if int (pollCount s1) > maxPolls p then ([], s1\<lparr>running := False\<rparr>)
         else
           (let s2 = cancel_if (cancelled t = DuringFetch) s1 in
            case on_fetched p (fetched t) s2 of (ev, s3) \<Rightarrow>
              (let inCallback = (cancelled t = InCallback \<and> ev \<noteq> []);
                   s4 = cancel_if inCallback s3;
                   seen = Fetch # cancel_event (cancelled t = DuringFetch) @ ev @
                          cancel_event inCallback
               in if running s4 then
                    (case poll p ts (cancel_if (cancelled t = DuringSleep) s4) of
                       (rest, s6) \<Rightarrow>
                         (seen @ [Timeout (currentInterval s4)] @
                          cancel_event (cancelled t = DuringSleep) @ rest, s6))
                  else (seen, s4)))))"

definition pollRoomUpdates ::
  "'r poll_params \<Rightarrow> 'r tick list \<Rightarrow> 'r poll_event list \<times> poll_state" where
  "pollRoomUpdates p ticks =
     poll p ticks \<lparr>currentInterval = interval p, lastRoom = None, running = True, pollCount = 0\<rparr>"

text \<open>The default arguments \<^verbatim>\<open>interval = 2000, maxInterval = 5000, maxPolls = 100\<close>.\<close>

definition default_params :: "('r option \<Rightarrow> string) \<Rightarrow> 'r poll_params" where
  "default_params str =
     \<lparr>interval = Finite 2000, maxInterval = Finite 5000, maxPolls = 100, stringify = str\<rparr>"

definition callbacks :: "'r poll_event list \<Rightarrow> 'r option list" where
  "callbacks t = concat (map (\<lambda>e. case e of Callback r \<Rightarrow> [r] | _ \<Rightarrow> []) t)"

text \<open>What a trace shows after the cancel function was first invoked, if it was.\<close>

fun after_cancel :: "'r poll_event list \<Rightarrow> 'r poll_event list option" where
  "after_cancel [] = None"
| "after_cancel (Cancel # es) = Some es"
| "after_cancel (e # es) = after_cancel es"

section \<open>lineraStore.ts: the game store\<close>

text \<open>
  The state of \<^verbatim>\<open>useGameStore\<close>. \<open>pollers\<close> holds the captured variables of every
  poll loop created so far, and \<open>pollCanceller = Some i\<close> is the cancel function of the
  \<open>i\<close>-th of them.
\<close>

record 'r game_state =
  room :: "'r option"
  isLoading :: bool
  error :: "string option"
  pollCanceller :: "nat option"
  pollers :: "poll_state list"

definition stopPolling :: "'r game_state \<Rightarrow> 'r game_state" where
  "stopPolling g =
     (case pollCanceller g of
        None \<Rightarrow> g
      | Some i \<Rightarrow>
          g\<lparr>pollers := (if i < length (pollers g)
                          then (pollers g)[i := cancel (pollers g ! i)] else pollers g),
            pollCanceller := None\<rparr>)"

text \<open>
  \<^verbatim>\<open>startPolling\<close> up to the call of \<^verbatim>\<open>pollRoomUpdates\<close>, which runs the first
  iteration with the default arguments as far as its fetch: the new loop has counted one
  poll. The result names the new loop.
\<close>

definition startPolling :: "'r game_state \<Rightarrow> nat \<times> 'r game_state" where
  "startPolling g =
     (let g1 = stopPolling g;
          fresh = \<lparr>currentInterval = Finite 2000, lastRoom = None, running = True, pollCount = 1\<rparr>
      in (length (pollers g1), g1\<lparr>pollers := pollers g1 @ [fresh]\<rparr>))"

text \<open>The \<^verbatim>\<open>.then\<close> callback of \<^verbatim>\<open>startPolling\<close>, a microtask of its own.\<close>

definition startPolling_then :: "nat \<Rightarrow> 'r game_state \<Rightarrow> 'r game_state" where
  "startPolling_then canceller g = g\<lparr>pollCanceller := Some canceller\<rparr>"

definition syncRoom ::
  "('r option) call_env \<Rightarrow> 'r game_state \<Rightarrow> world \<Rightarrow> 'r game_state \<times> world" where
  "syncRoom env g s =
     (case getRoomSynced env s of
        (Inl err, s1, t) \<Rightarrow> (g, s1)
      | (Inr rm, s1, t) \<Rightarrow> (g\<lparr>room := rm\<rparr>, s1))"

definition createNewRoom ::
  "'m call_env \<Rightarrow> ('r option) call_env \<Rightarrow> string \<Rightarrow> 'r game_state \<Rightarrow> world
     \<Rightarrow> (thrown + string) \<times> 'r game_state \<times> world" where
  "createNewRoom envM envQ gameType g s =
     (let g1 = g\<lparr>isLoading := True, error := None\<rparr> in
      case createRoom envM gameType s of
        (Inl err, s1, t) \<Rightarrow>
          (Inl err,
           g1\<lparr>isLoading := False, error := Some (message_or ''Failed to create room'' err)\<rparr>, s1)
      | (Inr hostChainId, s1, t) \<Rightarrow>
          (case getRoom envQ s1 of
             (Inl err, s2, t2) \<Rightarrow>
               (Inl err,
                g1\<lparr>isLoading := False, error := Some (message_or ''Failed to create room'' err)\<rparr>,
                s2)
           | (Inr rm, s2, t2) \<Rightarrow> (Inr hostChainId, g1\<lparr>room := rm, isLoading := False\<rparr>, s2)))"

definition joinExistingRoom ::
  "'m call_env \<Rightarrow> string \<Rightarrow> 'r game_state \<Rightarrow> world
     \<Rightarrow> (thrown + unit) \<times> 'r game_state \<times> world" where
  "joinExistingRoom envM hostChainId g s =
     (let g1 = g\<lparr>isLoading := True, error := None\<rparr> in
      case joinRoom envM hostChainId s of
        (Inl err, s1, t) \<Rightarrow>
          (Inl err,
           g1\<lparr>isLoading := False, error := Some (message_or ''Failed to join room'' err)\<rparr>, s1)
      | (Inr u, s1, t) \<Rightarrow>
          (case startPolling g1 of (canceller, g2) \<Rightarrow>
             (Inr (), startPolling_then canceller (g2\<lparr>isLoading := False\<rparr>), s1)))"

definition leaveCurrentRoom ::
  "'m call_env \<Rightarrow> 'r game_state \<Rightarrow> world \<Rightarrow> (thrown + unit) \<times> 'r game_state \<times> world" where
  "leaveCurrentRoom envM g s =
     (let g1 = g\<lparr>isLoading := True, error := None\<rparr>;
          g2 = stopPolling g1
      in case leaveRoom envM s of
           (Inl err, s1, t) \<Rightarrow>
             (Inr (),
              g2\<lparr>isLoading := False, error := Some (message_or ''Failed to leave room'' err)\<rparr>,
              s1)
         | (Inr u, s1, t) \<Rightarrow> (Inr (), g2\<lparr>room := None, isLoading := False\<rparr>, s1))"

definition submitMove ::
  "'m call_env \<Rightarrow> ('r option) call_env \<Rightarrow> move_data \<Rightarrow> 'r game_state \<Rightarrow> world
     \<Rightarrow> (thrown + unit) \<times> 'r game_state \<times> world" where
  "submitMove envM envQ moveData g s =
     (let g1 = g\<lparr>isLoading := True, error := None\<rparr> in
      case makeMove envM moveData s of
        (Inl err, s1, t) \<Rightarrow>
          (Inl err,
           g1\<lparr>isLoading := False, error := Some (message_or ''Failed to make move'' err)\<rparr>, s1)
      | (Inr u, s1, t) \<Rightarrow>
          (case syncRoom envQ g1 s1 of (g2, s2) \<Rightarrow> (Inr (), g2\<lparr>isLoading := False\<rparr>, s2)))"

section \<open>Histories and concrete environments\<close>

text \<open>A history of \<^verbatim>\<open>joinRoom\<close> calls, each with the environment it meets.\<close>

fun joinRooms :: "('m call_env \<times> string) list \<Rightarrow> world \<Rightarrow> world" where
  "joinRooms [] s = s"
| "joinRooms (c # calls) s = joinRooms calls (fst (snd (joinRoom (fst c) (snd c) s)))"

text \<open>The list under the key is readable, short and free of duplicates.\<close>

definition recent_ok :: "world \<Rightarrow> bool" where
  "recent_ok s =
     (\<exists>recent. getRecentRooms (localStorage s) = Inr recent \<and> length recent \<le> 10 \<and>
               distinct recent)"

text \<open>
  The adapter as its constructor leaves it, over an empty \<^verbatim>\<open>localStorage\<close>, and the
  adapter with a session.
\<close>

definition initial_world :: world where
  "initial_world =
     \<lparr>connection = None, appConnection = None, connectPromise = None, localStorage = Map.empty\<rparr>"

definition session :: "string \<Rightarrow> string \<Rightarrow> string \<Rightarrow> world" where
  "session cid addr auto =
     \<lparr>connection = Some \<lparr>chainId = cid, address = addr, autoSignerAddress = auto\<rparr>,
      appConnection = None, connectPromise = None, localStorage = Map.empty\<rparr>"

text \<open>Every confirmation attempt meets the same outcome.\<close>

definition always :: "sync_outcome \<Rightarrow> nat \<Rightarrow> sync_outcome" where
  "always out i = out"

text \<open>
  A remote side that binds the application \<^verbatim>\<open>app-1\<close> and answers every call with the
  given envelope.
\<close>

definition answering :: "'d envelope \<Rightarrow> sync_outcome \<Rightarrow> 'd call_env" where
  "answering parsed out =
     \<lparr>APPLICATION_ID = ''app-1'', bind = None, response = Inr parsed, pre_sync = None,
      syncs = always out\<rparr>"

text \<open>A remote side whose \<^verbatim>\<open>application.query\<close> rejects.\<close>

definition rejecting :: "thrown \<Rightarrow> 'd call_env" where
  "rejecting e =
     \<lparr>APPLICATION_ID = ''app-1'', bind = None, response = Inl e, pre_sync = None,
      syncs = always SyncedNoInbox\<rparr>"

text \<open>An answer without errors.\<close>

definition ok :: "'d \<Rightarrow> 'd envelope" where
  "ok d = \<lparr>data = Some d, errors = None\<rparr>"

text \<open>A network on which every step of \<^verbatim>\<open>performConnect\<close> succeeds.\<close>

definition succeeding :: "string \<Rightarrow> string \<Rightarrow> connect_env" where
  "succeeding cid auto =
     \<lparr>loadModule = None, newFaucet = None, createWallet = None, createRandom = Inr auto,
      claimChain = Inr cid, setOwner = None, newClient = None, chainConnect = None\<rparr>"

text \<open>A browser in which the WASM module does not load.\<close>

definition unloadable :: "thrown \<Rightarrow> connect_env" where
  "unloadable e =
     \<lparr>loadModule = Some e, newFaucet = None, createWallet = None, createRandom = Inr [],
      claimChain = Inr [], setOwner = None, newClient = None, chainConnect = None\<rparr>"

text \<open>A network on which the faucet refuses the claim.\<close>

definition refusing :: "thrown \<Rightarrow> string \<Rightarrow> connect_env" where
  "refusing e auto =
     \<lparr>loadModule = None, newFaucet = None, createWallet = None, createRandom = Inr auto,
      claimChain = Inl e, setOwner = None, newClient = None, chainConnect = None\<rparr>"

text \<open>A wallet that signs whatever it is shown, and one that refuses.\<close>

definition approves :: "string \<Rightarrow> thrown + string" where
  "approves msg = Inr (''signed:'' @ msg)"

definition declines :: "string \<Rightarrow> thrown + string" where
  "declines msg = Inl (Error ''User rejected the request'')"

definition wallet_of :: "string \<Rightarrow> dynamic_wallet" where
  "wallet_of addr = \<lparr>wallet_address = addr, signMessage = approves\<rparr>"

text \<open>A tick that delivers a room and leaves the loop alone.\<close>

definition delivers :: "'r option \<Rightarrow> 'r tick" where
  "delivers rm = \<lparr>fetched = Inr rm, cancelled = NoCancel\<rparr>"

text \<open>
  The arguments \<^verbatim>\<open>interval = 0.1, maxInterval = 5000, maxPolls = 100\<close>; the literal
  \<^verbatim>\<open>0.1\<close> is the double nearest to one tenth.
\<close>

definition tenth_params :: "('r option \<Rightarrow> string) \<Rightarrow> 'r poll_params" where
  "tenth_params str =
     \<lparr>interval = to_double (1 / 10), maxInterval = Finite 5000, maxPolls = 100,
      stringify = str\<rparr>"

text \<open>Rooms that are their own JSON text.\<close>

definition stringify_text :: "string option \<Rightarrow> string" where
  "stringify_text rm = (case rm of None \<Rightarrow> ''null'' | Some txt \<Rightarrow> txt)"

text \<open>The adapter after one \<^verbatim>\<open>connect\<close> of the wallet \<^verbatim>\<open>0xABC\<close> has gone through.\<close>

definition connected_once :: world where
  "connected_once =
     fst (snd (snd (concurrent_connects (succeeding ''chain-1'' ''0xauto'') [wallet_of ''0xABC''] []
                      initial_world)))"

text \<open>
  A call of \<^verbatim>\<open>connect\<close> that neither throws nor returns at once: the wallet has an
  address, and no session exists for that address.
\<close>

definition needs_connect :: "world \<Rightarrow> dynamic_wallet \<Rightarrow> bool" where
  "needs_connect s w =
     (toLowerCase (wallet_address w) \<noteq> [] \<and>
      (case connection s of
         Some c \<Rightarrow> address c \<noteq> toLowerCase (wallet_address w)
       | None \<Rightarrow> True))"

text \<open>A stretch of a poll trace that holds nothing but at most one callback.\<close>

definition quiet :: "'r poll_event list \<Rightarrow> bool" where
  "quiet post = (post = [] \<or> (\<exists>r. post = [Callback r]))"

text \<open>The game store as \<^verbatim>\<open>create\<close> leaves it.\<close>

definition empty_store :: "'r game_state" where
  "empty_store =
     \<lparr>room = None, isLoading = False, error = None, pollCanceller = None, pollers = []\<rparr>"

section \<open>Properties\<close>

subsection \<open>Unfolding the operations on concrete inputs\<close>

lemmas adapter_eval =
  mutate_def query_def queryWithSync_def ensure_application_def connectApplication_def
  answering_def rejecting_def ok_def session_def initial_world_def wait_for_block_def always_def
  or_empty_def error_message_def Let_def upt_rec getChainId_def

lemmas connect_eval =
  concurrent_connects_def connect_def settle_def performConnect_def succeeding_def refusing_def
  wallet_of_def toLowerCase_def lower_char_def getState_def initial_world_def Let_def
  connected_once_def

subsection \<open>What the remote calls leave alone\<close>

lemma connectApplication_frame:
  "connectApplication b a s = (r, s', t) \<Longrightarrow>
     localStorage s' = localStorage s \<and> connection s' = connection s \<and>
     connectPromise s' = connectPromise s"
  by (auto simp: connectApplication_def Let_def split: option.splits if_splits)

lemma ensure_application_frame:
  "ensure_application env s = (r, s', t) \<Longrightarrow>
     localStorage s' = localStorage s \<and> connection s' = connection s \<and>
     connectPromise s' = connectPromise s"
  by (auto simp: ensure_application_def dest: connectApplication_frame split: option.splits)

lemma mutate_frame:
  "mutate env q v s = (r, s', t) \<Longrightarrow>
     localStorage s' = localStorage s \<and> connection s' = connection s \<and>
     connectPromise s' = connectPromise s"
  unfolding mutate_def
  by (auto simp: Let_def dest: ensure_application_frame
      split: option.splits sum.splits prod.splits)

subsection \<open>disconnect and the persisted identifiers\<close>

text \<open>
  C3. After \<^verbatim>\<open>disconnect()\<close> the session and the binding are \<^verbatim>\<open>null\<close> and the stored
  partition id and user address are gone, but the key \<^verbatim>\<open>chaincycles_auto_signer\<close> that
  \<^verbatim>\<open>performConnect\<close> wrote is still in \<^verbatim>\<open>localStorage\<close>: the code at the input
  "connect the wallet 0xABC, then disconnect".
\<close>

theorem disconnect_keeps_auto_signer:
  "connection (disconnect connected_once) = None \<and>
   appConnection (disconnect connected_once) = None \<and>
   localStorage connected_once ''chaincycles_chain_id'' = Some (Str ''chain-1'') \<and>
   localStorage (disconnect connected_once) ''chaincycles_chain_id'' = None \<and>
   localStorage connected_once ''chaincycles_user_address'' = Some (Str ''0xabc'') \<and>
   localStorage (disconnect connected_once) ''chaincycles_user_address'' = None \<and>
   localStorage connected_once ''chaincycles_auto_signer'' = Some (Str ''0xauto'') \<and>
   localStorage (disconnect connected_once) ''chaincycles_auto_signer'' = Some (Str ''0xauto'')"
  by (simp add: connect_eval disconnect_def)

subsection \<open>The recent-room list\<close>

lemma joinRoom_step:
  assumes "getRecentRooms (localStorage s) = Inr recent" "length recent \<le> 10" "distinct recent"
      and "joinRoom env host s = (r, s', t)"
  shows "getRecentRooms (localStorage s') =
           Inr (if r = Inr () \<and> host \<notin> set recent then host # take 9 recent else recent)"
proof (cases "mutate env JOIN_ROOM (Some [(''hostChainId'', VStr host)]) s")
  case (fields m s1 t1)
  have ls: "localStorage s1 = localStorage s"
    using mutate_frame[OF fields] by simp
  show ?thesis
  proof (cases m)
    case (Inl e)
    with fields assms ls show ?thesis
      by (auto simp: joinRoom_def)
  next
    case (Inr d)
    show ?thesis
    proof (cases "host \<in> set recent")
      case True
      with Inr fields assms ls show ?thesis
        by (auto simp: joinRoom_def)
    next
      case False
      have "butlast (host # recent) = host # take 9 recent" if "length recent = 10"
        using that by (cases recent rule: rev_cases) (auto simp: butlast_append)
      moreover have "take 9 recent = recent" if "length recent < 10"
        using that by simp
      ultimately show ?thesis
        using False Inr fields assms ls
        by (auto simp: joinRoom_def Let_def getRecentRooms_def)
    qed
  qed
qed

lemma joinRoom_recent_ok:
  assumes "recent_ok s"
  shows "recent_ok (fst (snd (joinRoom env host s)))"
proof -
  obtain recent where r: "getRecentRooms (localStorage s) = Inr recent"
      "length recent \<le> 10" "distinct recent"
    using assms by (auto simp: recent_ok_def)
  obtain r s' t where j: "joinRoom env host s = (r, s', t)"
    by (cases "joinRoom env host s")
  have "set (take 9 recent) \<subseteq> set recent"
    by (rule set_take_subset)
  then show ?thesis
    using joinRoom_step[OF r j] r j by (auto simp: recent_ok_def)
qed

lemma joinRooms_recent_ok: "recent_ok s \<Longrightarrow> recent_ok (joinRooms calls s)"
  by (induction calls arbitrary: s) (auto intro: joinRoom_recent_ok)

text \<open>
  C9, as amended. Starting from a storage without the list, after any history of
  \<^verbatim>\<open>joinRoom\<close> calls a further call leaves a list of at most 10 entries without
  duplicates. A successful join of an id that was not listed puts it at the front and keeps
  the nine most recent of the others; the join of an id already listed, like a failed join,
  leaves the list as it was, so a re-joined room is not moved to the front.
\<close>

theorem joinRoom_recent_list:
  assumes "localStorage s0 ''chaincycles_recent_rooms'' = None"
      and "joinRoom env host (joinRooms calls s0) = (r, s', t)"
  shows "\<exists>recent recent'.
           getRecentRooms (localStorage (joinRooms calls s0)) = Inr recent \<and>
           getRecentRooms (localStorage s') = Inr recent' \<and>
           length recent' \<le> 10 \<and> distinct recent' \<and>
           recent' =
             (if r = Inr () \<and> host \<notin> set recent then host # take 9 recent else recent)"
proof -
  have "recent_ok s0"
    using assms(1) by (simp add: recent_ok_def getRecentRooms_def)
  then have "recent_ok (joinRooms calls s0)"
    by (rule joinRooms_recent_ok)
  then obtain recent where r:
      "getRecentRooms (localStorage (joinRooms calls s0)) = Inr recent"
      "length recent \<le> 10" "distinct recent"
    by (auto simp: recent_ok_def)
  have "set (take 9 recent) \<subseteq> set recent"
    by (rule set_take_subset)
  then show ?thesis
    using joinRoom_step[OF r assms(2)] r by auto
qed

theorem joinRoom_recent_list_witness:
  "localStorage (session ''chain-me'' ''0xabc'' ''0xauto'') ''chaincycles_recent_rooms'' = None \<and>
   getRecentRooms (localStorage (fst (snd (joinRoom (answering (ok ()) InboxProcessed) ''chain-c''
      (joinRooms [(answering (ok ()) InboxProcessed, ''chain-a''),
                  (answering (ok ()) InboxProcessed, ''chain-b'')]
         (session ''chain-me'' ''0xabc'' ''0xauto'')))))) =
     Inr [''chain-c'', ''chain-b'', ''chain-a'']"
proof -
  let ?e = "answering (ok ()) InboxProcessed :: unit call_env"
  let ?w = "session ''chain-me'' ''0xabc'' ''0xauto''"
  let ?s = "joinRooms [(?e, ''chain-a''), (?e, ''chain-b'')] ?w"
  have h: "localStorage ?w ''chaincycles_recent_rooms'' = None"
    by (simp add: session_def)
  have pre: "getRecentRooms (localStorage ?s) = Inr [''chain-b'', ''chain-a'']"
    by (simp add: joinRoom_def getRecentRooms_def JOIN_ROOM_def adapter_eval)
  obtain r s' t where j: "joinRoom ?e ''chain-c'' ?s = (r, s', t)"
    by (cases "joinRoom ?e ''chain-c'' ?s")
  have r: "r = Inr ()"
    using j by (simp add: joinRoom_def getRecentRooms_def JOIN_ROOM_def adapter_eval)
  from joinRoom_recent_list[OF h j] pre r j h show ?thesis
    by auto
qed

text \<open>
  The claim as stated fails: join \<^verbatim>\<open>chain-a\<close>, then \<^verbatim>\<open>chain-b\<close>, then \<^verbatim>\<open>chain-a\<close>
  again. The last call succeeds, and the list still starts with \<^verbatim>\<open>chain-b\<close>.
\<close>

theorem joinRoom_rejoin_counterexample:
  "fst (joinRoom (answering (ok ()) InboxProcessed) ''chain-a''
      (joinRooms [(answering (ok ()) InboxProcessed, ''chain-a''),
                  (answering (ok ()) InboxProcessed, ''chain-b'')]
         (session ''chain-me'' ''0xabc'' ''0xauto''))) = Inr () \<and>
   getRecentRooms (localStorage (fst (snd (joinRoom (answering (ok ()) InboxProcessed) ''chain-a''
      (joinRooms [(answering (ok ()) InboxProcessed, ''chain-a''),
                  (answering (ok ()) InboxProcessed, ''chain-b'')]
         (session ''chain-me'' ''0xabc'' ''0xauto'')))))) =
     Inr [''chain-b'', ''chain-a'']"
  by (simp add: joinRoom_def getRecentRooms_def JOIN_ROOM_def adapter_eval)

subsection \<open>The response envelope: query and mutate\<close>

lemma ensure_application_trace:
  "ensure_application env s = (r, s', t) \<Longrightarrow> set t \<subseteq> {ChainSync c | c. True}"
  by (auto simp: ensure_application_def connectApplication_def Let_def
      split: option.splits if_splits)

text \<open>
  C2, as amended. When the session exists, the application is bound and the response
  parses to an envelope: if the envelope has an \<^verbatim>\<open>errors\<close> array, empty or not, both
  \<^verbatim>\<open>query\<close> and \<^verbatim>\<open>mutate\<close> reject with an \<^verbatim>\<open>Error\<close> whose message is the first
  entry's message when that is present and not empty and the fallback otherwise, and the
  trace of \<^verbatim>\<open>mutate\<close> ends with the application call: no sleep, no inbox processing. If
  \<^verbatim>\<open>errors\<close> is absent, both return the envelope's \<^verbatim>\<open>data\<close>.
\<close>

theorem envelope_errors:
  assumes "connection s = Some c"
      and "ensure_application env s = (Inr a, s1, t1)"
      and "response env = Inr parsed"
  shows "(\<forall>es. errors parsed = Some es \<longrightarrow>
            query env q v s =
              (Inl (Error (error_message es ''Query failed'')), s1,
               t1 @ [AppQuery (application a) q (or_empty v)]) \<and>
            mutate env q v s =
              (Inl (Error (error_message es ''Mutation failed'')), s1,
               t1 @ [AppQuery (application a) q (or_empty v)]) \<and>
            (\<forall>n. Sleep n \<notin> set (snd (snd (mutate env q v s)))) \<and>
            ProcessInbox \<notin> set (snd (snd (mutate env q v s))) \<and>
            error_message es fallback =
              (case es of
                 [] \<Rightarrow> fallback
               | e # rest \<Rightarrow>
                   if message e = None \<or> message e = Some [] then fallback
                   else the (message e))) \<and>
         (errors parsed = None \<longrightarrow>
            fst (query env q v s) = Inr (data parsed) \<and>
            fst (mutate env q v s) = Inr (data parsed))"
proof -
  have t1: "set t1 \<subseteq> {ChainSync c | c. True}"
    using ensure_application_trace[OF assms(2)] .
  have msg: "error_message es fallback =
              (case es of
                 [] \<Rightarrow> fallback
               | e # rest \<Rightarrow>
                   if message e = None \<or> message e = Some [] then fallback
                   else the (message e))" for es
    by (auto simp: error_message_def split: list.splits option.splits)
  show ?thesis
    using assms t1 msg
    by (auto simp: query_def mutate_def Let_def)
qed

theorem envelope_errors_witness:
  "connection (session ''chain-me'' ''0xabc'' ''0xauto'') =
     Some \<lparr>chainId = ''chain-me'', address = ''0xabc'', autoSignerAddress = ''0xauto''\<rparr> \<and>
   fst (mutate (answering \<lparr>data = Some (), errors = Some [\<lparr>message = Some ''boom''\<rparr>]\<rparr>
                  InboxProcessed)
          ''mutation M'' None (session ''chain-me'' ''0xabc'' ''0xauto'')) = Inl (Error ''boom'') \<and>
   snd (snd (mutate (answering \<lparr>data = Some (), errors = Some [\<lparr>message = Some ''boom''\<rparr>]\<rparr>
                       InboxProcessed)
               ''mutation M'' None (session ''chain-me'' ''0xabc'' ''0xauto''))) =
     [ChainSync ''chain-me'',
      AppQuery \<lparr>app_chain = ''chain-me'', app_id = ''app-1''\<rparr> ''mutation M'' []] \<and>
   fst (query (answering (ok ()) InboxProcessed) ''query Q'' None
          (session ''chain-me'' ''0xabc'' ''0xauto'')) = Inr (Some ())"
proof -
  let ?s = "session ''chain-me'' ''0xabc'' ''0xauto''"
  let ?bad = "\<lparr>data = Some (), errors = Some [\<lparr>message = Some ''boom''\<rparr>]\<rparr>"
  let ?e1 = "answering ?bad InboxProcessed"
  let ?e2 = "answering (ok ()) InboxProcessed :: unit call_env"
  let ?a = "\<lparr>application = \<lparr>app_chain = ''chain-me'', app_id = ''app-1''\<rparr>,
             applicationId = ''app-1''\<rparr>"
  have c: "connection ?s =
      Some \<lparr>chainId = ''chain-me'', address = ''0xabc'', autoSignerAddress = ''0xauto''\<rparr>"
    by (simp add: session_def)
  have b1: "ensure_application ?e1 ?s =
      (Inr ?a, ?s\<lparr>appConnection := Some ?a\<rparr>, [ChainSync ''chain-me''])"
    by (simp add: adapter_eval)
  have b2: "ensure_application ?e2 ?s =
      (Inr ?a, ?s\<lparr>appConnection := Some ?a\<rparr>, [ChainSync ''chain-me''])"
    by (simp add: adapter_eval)
  have r1: "response ?e1 = Inr ?bad"
    by (simp add: answering_def)
  have r2: "response ?e2 = Inr (ok ())"
    by (simp add: answering_def)
  from envelope_errors[OF c b1 r1, of "''mutation M''" None "''Mutation failed''"]
       envelope_errors[OF c b2 r2, of "''query Q''" None "''Query failed''"] c
  show ?thesis
    by (simp add: ok_def error_message_def or_empty_def)
qed

text \<open>
  The claim as stated fails on an envelope whose \<^verbatim>\<open>errors\<close> array is empty: the data is
  not returned, both calls reject with the fallback message.
\<close>

theorem empty_errors_counterexample:
  "fst (query (answering \<lparr>data = Some (), errors = Some []\<rparr> InboxProcessed) ''query Q'' None
          (session ''chain-me'' ''0xabc'' ''0xauto'')) = Inl (Error ''Query failed'') \<and>
   fst (mutate (answering \<lparr>data = Some (), errors = Some []\<rparr> InboxProcessed) ''mutation M''
          None (session ''chain-me'' ''0xabc'' ''0xauto'')) = Inl (Error ''Mutation failed'')"
  by (simp add: adapter_eval)

subsection \<open>The confirmation wait of mutate\<close>

text \<open>
  C6. When the response of a mutation has no \<^verbatim>\<open>errors\<close>, \<^verbatim>\<open>mutate\<close> makes three
  confirmation attempts after the application call; each starts with a sleep of 1000 ms
  followed by the resynchronisation \<^verbatim>\<open>client.chain(chainId)\<close>, and what an attempt throws
  only shows as a warning. Whatever the three attempts meet, \<^verbatim>\<open>mutate\<close> resolves with
  the envelope's data.
\<close>

theorem mutate_confirmation:
  assumes "connection s = Some c"
      and "ensure_application env s = (Inr a, s1, t1)"
      and "response env = Inr parsed"
      and "errors parsed = None"
  shows "mutate env q v s =
           (Inr (data parsed), s1,
            t1 @ [AppQuery (application a) q (or_empty v)] @
            sync_attempt c (syncs env 0) @ sync_attempt c (syncs env 1) @
            sync_attempt c (syncs env 2)) \<and>
         (\<forall>out. \<exists>rest. sync_attempt c out = Sleep 1000 # ChainSync (chainId c) # rest \<and>
                        (\<forall>n. Sleep n \<notin> set rest) \<and>
                        (rest = [] \<or> rest = [ProcessInbox] \<or>
                         (\<exists>e. rest = [Warn e] \<or> rest = [ProcessInbox, Warn e]))) \<and>
         (\<forall>outcomes. fst (mutate (env\<lparr>syncs := outcomes\<rparr>) q v s) = Inr (data parsed) \<and>
                     fst (snd (mutate (env\<lparr>syncs := outcomes\<rparr>) q v s)) = s1)"
proof -
  have att: "\<exists>rest. sync_attempt c out = Sleep 1000 # ChainSync (chainId c) # rest \<and>
                        (\<forall>n. Sleep n \<notin> set rest) \<and>
                        (rest = [] \<or> rest = [ProcessInbox] \<or>
                         (\<exists>e. rest = [Warn e] \<or> rest = [ProcessInbox, Warn e]))" for out
    by (cases out) auto
  have ens: "ensure_application (env\<lparr>syncs := outcomes\<rparr>) s = (Inr a, s1, t1)" for outcomes
    using assms(2) by (auto simp: ensure_application_def split: option.splits)
  have m: "mutate env q v s =
           (Inr (data parsed), s1,
            t1 @ [AppQuery (application a) q (or_empty v)] @
            sync_attempt c (syncs env 0) @ sync_attempt c (syncs env 1) @
            sync_attempt c (syncs env 2))"
  proof -
    have u: "[0..<3] = [0, 1, 2::nat]"
      by (simp add: upt_rec numeral_2_eq_2)
    show ?thesis
      using assms by (simp add: mutate_def Let_def wait_for_block_def u)
  qed
  have m2: "fst (mutate (env\<lparr>syncs := outcomes\<rparr>) q v s) = Inr (data parsed) \<and>
            fst (snd (mutate (env\<lparr>syncs := outcomes\<rparr>) q v s)) = s1" for outcomes
    using assms(1,3,4) ens[of outcomes] by (simp add: mutate_def Let_def)
  show ?thesis
    using att m m2 by blast
qed

theorem mutate_confirmation_witness:
  "errors (ok ()) = None \<and>
   mutate (answering (ok ()) (SyncFails (Error ''offline''))) ''mutation M'' None
     (session ''chain-me'' ''0xabc'' ''0xauto'') =
     (Inr (Some ()),
      (session ''chain-me'' ''0xabc'' ''0xauto'')
        \<lparr>appConnection :=
           Some \<lparr>application = \<lparr>app_chain = ''chain-me'', app_id = ''app-1''\<rparr>,
                 applicationId = ''app-1''\<rparr>\<rparr>,
      [ChainSync ''chain-me'',
       AppQuery \<lparr>app_chain = ''chain-me'', app_id = ''app-1''\<rparr> ''mutation M'' [],
       Sleep 1000, ChainSync ''chain-me'', Warn (Error ''offline''),
       Sleep 1000, ChainSync ''chain-me'', Warn (Error ''offline''),
       Sleep 1000, ChainSync ''chain-me'', Warn (Error ''offline'')])"
proof -
  let ?s = "session ''chain-me'' ''0xabc'' ''0xauto''"
  let ?e = "answering (ok ()) (SyncFails (Error ''offline'')) :: unit call_env"
  let ?a = "\<lparr>application = \<lparr>app_chain = ''chain-me'', app_id = ''app-1''\<rparr>,
             applicationId = ''app-1''\<rparr>"
  have c: "connection ?s =
      Some \<lparr>chainId = ''chain-me'', address = ''0xabc'', autoSignerAddress = ''0xauto''\<rparr>"
    by (simp add: session_def)
  have b: "ensure_application ?e ?s =
      (Inr ?a, ?s\<lparr>appConnection := Some ?a\<rparr>, [ChainSync ''chain-me''])"
    by (simp add: adapter_eval)
  have r: "response ?e = Inr (ok ())"
    by (simp add: answering_def)
  have n: "errors (ok ()) = None"
    by (simp add: ok_def)
  from mutate_confirmation[OF c b r n, of "''mutation M''" None] n
  show ?thesis
    by (simp add: ok_def answering_def always_def or_empty_def)
qed

subsection \<open>Single-flight connect\<close>

lemma getState_connectPromise [simp]: "getState (s\<lparr>connectPromise := x\<rparr>) = getState s"
  by (simp add: getState_def)

lemma needs_connect_connectPromise [simp]:
  "needs_connect (s\<lparr>connectPromise := x\<rparr>) w = needs_connect s w"
  by (simp add: needs_connect_def)

lemma connect_calls_awaiting:
  "connectPromise s \<noteq> None \<Longrightarrow> \<forall>w\<in>set ws. needs_connect s w \<Longrightarrow>
     connect_calls ws s = (replicate (length ws) Awaiting, s)"
  by (induction ws) (auto simp: connect_def needs_connect_def Let_def split: option.splits)

lemma connect_calls_early:
  assumes "connectPromise s = None" "needs_connect s w" "\<forall>w'\<in>set ws. needs_connect s w'"
  shows "connect_calls (w # ws) s =
           (Started # replicate (length ws) Awaiting,
            s\<lparr>connectPromise := Some (toLowerCase (wallet_address w))\<rparr>)"
proof -
  let ?s1 = "s\<lparr>connectPromise := Some (toLowerCase (wallet_address w))\<rparr>"
  have 1: "connect w s = (Started, ?s1)"
    using assms(1,2) by (auto simp: connect_def needs_connect_def Let_def split: option.splits)
  have 2: "connect_calls ws ?s1 = (replicate (length ws) Awaiting, ?s1)"
    by (rule connect_calls_awaiting) (use assms(3) in auto)
  show ?thesis
    using 1 2 by simp
qed

lemma connect_calls_late:
  "connectPromise s \<noteq> None \<Longrightarrow> \<forall>w\<in>set ws. toLowerCase (wallet_address w) \<noteq> [] \<Longrightarrow>
     \<exists>ps. connect_calls ws s = (ps, s) \<and> length ps = length ws \<and>
          (\<forall>p\<in>set ps. p = Awaiting \<or> (p = Returned (getState s) \<and> connection s \<noteq> None))"
  by (induction ws) (auto simp: connect_def Let_def split: option.splits)

lemma resume_all_same:
  assumes "getState s = st"
      and "\<forall>p\<in>set ps. p = Started \<or> p = Awaiting \<or> (p = Returned st \<and> (\<exists>c. r = Inr c))"
  shows "resume_all ps (Some r) s =
           (replicate (length ps) (Some (case r of Inl e \<Rightarrow> Inl e | Inr c \<Rightarrow> Inr st)),
            if Started \<in> set ps then s\<lparr>connectPromise := None\<rparr> else s)"
  using assms
proof (induction ps arbitrary: s)
  case Nil
  then show ?case by simp
next
  case (Cons p ps)
  show ?case
  proof (cases p)
    case Started
    have "resume_all ps (Some r) (s\<lparr>connectPromise := None\<rparr>) =
           (replicate (length ps) (Some (case r of Inl e \<Rightarrow> Inl e | Inr c \<Rightarrow> Inr st)),
            if Started \<in> set ps then s\<lparr>connectPromise := None, connectPromise := None\<rparr>
            else s\<lparr>connectPromise := None\<rparr>)"
      by (rule Cons.IH) (use Cons.prems in auto)
    with Started Cons.prems show ?thesis
      by (cases r) auto
  next
    case Awaiting
    have "resume_all ps (Some r) s =
           (replicate (length ps) (Some (case r of Inl e \<Rightarrow> Inl e | Inr c \<Rightarrow> Inr st)),
            if Started \<in> set ps then s\<lparr>connectPromise := None\<rparr> else s)"
      by (rule Cons.IH) (use Cons.prems in auto)
    with Awaiting Cons.prems show ?thesis
      by (cases r) auto
  next
    case (Returned x)
    have "resume_all ps (Some r) s =
           (replicate (length ps) (Some (case r of Inl e \<Rightarrow> Inl e | Inr c \<Rightarrow> Inr st)),
            if Started \<in> set ps then s\<lparr>connectPromise := None\<rparr> else s)"
      by (rule Cons.IH) (use Cons.prems in auto)
    with Returned Cons.prems show ?thesis
      by auto
  next
    case (Threw e)
    with Cons.prems show ?thesis
      by auto
  qed
qed

lemma performConnect_appConnection:
  "appConnection (fst (snd (performConnect env u s))) = appConnection s"
  by (simp add: performConnect_def Let_def split: option.splits sum.splits)

lemma performConnect_connectPromise:
  "connectPromise (fst (snd (performConnect env u s))) = connectPromise s"
  by (simp add: performConnect_def Let_def split: option.splits sum.splits)

lemma performConnect_failure:
  "performConnect env u s = (Inl e, s', t) \<Longrightarrow> s' = s\<lparr>connection := None\<rparr>"
  by (auto simp: performConnect_def Let_def split: option.splits sum.splits)

lemma performConnect_success:
  "performConnect env u s = (Inr c, s', t) \<Longrightarrow>
     connection s' = Some c \<and> address c = u \<and> claimChain env = Inr (chainId c) \<and>
     createRandom env = Inr (autoSignerAddress c) \<and>
     t = [ClaimChain (autoSignerAddress c), ChainSync (chainId c)]"
  by (auto simp: performConnect_def Let_def split: option.splits sum.splits)

lemma performConnect_claims:
  "performConnect env u s = (r, s', t) \<Longrightarrow>
     claims t \<le> 1 \<and> (claims t = 1) = reaches_claim env"
  by (auto simp: performConnect_def claims_def reaches_claim_def Let_def
      split: option.splits sum.splits)

lemma concurrent_connects_run:
  assumes "connectPromise s0 = None"
      and "needs_connect s0 w" "\<forall>w'\<in>set ws. needs_connect s0 w'"
      and "\<forall>w'\<in>set late. toLowerCase (wallet_address w') \<noteq> []"
      and "performConnect env (toLowerCase (wallet_address w))
             (s0\<lparr>connectPromise := Some (toLowerCase (wallet_address w))\<rparr>) = (r, s2, t)"
  shows "\<exists>ps2. concurrent_connects env (w # ws) late s0 =
           (Started # replicate (length ws) Awaiting @ ps2,
            replicate (Suc (length ws) + length late)
              (Some (case r of Inl e \<Rightarrow> Inl e | Inr c \<Rightarrow> Inr (getState s2))),
            s2\<lparr>connectPromise := None\<rparr>, t) \<and>
           length ps2 = length late \<and> Started \<notin> set ps2"
proof -
  let ?a = "toLowerCase (wallet_address w)"
  let ?s1 = "s0\<lparr>connectPromise := Some ?a\<rparr>"
  have early: "connect_calls (w # ws) s0 = (Started # replicate (length ws) Awaiting, ?s1)"
    using assms(1-3) by (rule connect_calls_early)
  have st: "settle env ?s1 = (Some r, s2, t)"
    using assms(5) by (simp add: settle_def)
  have cp: "connectPromise s2 = Some ?a"
    using performConnect_connectPromise[of env ?a ?s1] assms(5) by simp
  then have "connectPromise s2 \<noteq> None"
    by simp
  from connect_calls_late[OF this assms(4)]
  obtain ps2 where late: "connect_calls late s2 = (ps2, s2)" "length ps2 = length late"
    and ps2: "\<forall>p\<in>set ps2. p = Awaiting \<or> (p = Returned (getState s2) \<and> connection s2 \<noteq> None)"
    by blast
  have conn: "connection s2 \<noteq> None \<Longrightarrow> \<exists>c. r = Inr c"
    using assms(5) by (cases r) (auto dest: performConnect_failure)
  let ?ps = "(Started # replicate (length ws) Awaiting) @ ps2"
  have allowed: "\<forall>p\<in>set ?ps. p = Started \<or> p = Awaiting \<or>
                   (p = Returned (getState s2) \<and> (\<exists>c. r = Inr c))"
    using ps2 conn by auto
  have res: "resume_all ?ps (Some r) s2 =
           (replicate (length ?ps)
              (Some (case r of Inl e \<Rightarrow> Inl e | Inr c \<Rightarrow> Inr (getState s2))),
            if Started \<in> set ?ps then s2\<lparr>connectPromise := None\<rparr> else s2)"
    using refl allowed by (rule resume_all_same)
  have nostart: "Started \<notin> set ps2"
    using ps2 by auto
  show ?thesis
    using early st late res nostart
    by (auto simp: concurrent_connects_def)
qed

text \<open>
  C1, as amended. From an adapter without a memoized promise, let any number of calls of
  \<^verbatim>\<open>connect\<close>, at least one, be issued while the attempt is in flight (\<open>early\<close>) or after
  it has settled but before any continuation has run (\<open>late\<close>), each for a wallet with an
  address, the early ones for an address that has no session yet. Then exactly one call
  starts \<^verbatim>\<open>performConnect\<close> and the others await its promise or return the state it left;
  there is at most one partition claim, and exactly one when the attempt gets as far as
  the claim; every call settles to the same outcome. If the attempt succeeds, that
  outcome is the state of the new session, for the first caller's lowercased address and
  the chain the faucet handed out, after exactly one claim. If it fails, the session is
  \<^verbatim>\<open>null\<close>. Either way the memoized promise is cleared, so that after a failure the next
  \<^verbatim>\<open>connect\<close> starts a fresh attempt.
\<close>

theorem connect_single_flight:
  assumes "connectPromise s0 = None"
      and "early \<noteq> []"
      and "\<forall>w\<in>set early. needs_connect s0 w"
      and "\<forall>w\<in>set late. toLowerCase (wallet_address w) \<noteq> []"
      and "concurrent_connects env early late s0 = (steps, rs, s', t)"
  shows "length (filter (\<lambda>p. p = Started) steps) = 1 \<and>
         claims t \<le> 1 \<and>
         (claims t = 1) = reaches_claim env \<and>
         connectPromise s' = None \<and>
         (\<exists>r. rs = replicate (length early + length late) (Some r) \<and>
              (case r of
                 Inl e \<Rightarrow>
                   connection s' = None \<and>
                   (\<forall>w. toLowerCase (wallet_address w) \<noteq> [] \<longrightarrow> fst (connect w s') = Started)
               | Inr st \<Rightarrow>
                   claims t = 1 \<and> st = getState s' \<and> isConnected st \<and>
                   userAddress st = Some (toLowerCase (wallet_address (hd early))) \<and>
                   (\<exists>cid. claimChain env = Inr cid \<and> state_chainId st = Some cid)))"
proof -
  obtain w ws where e: "early = w # ws"
    using assms(2) by (cases early) auto
  let ?a = "toLowerCase (wallet_address w)"
  obtain r s2 t2 where
    pc: "performConnect env ?a (s0\<lparr>connectPromise := Some ?a\<rparr>) = (r, s2, t2)"
    by (cases "performConnect env ?a (s0\<lparr>connectPromise := Some ?a\<rparr>)")
  have nw: "needs_connect s0 w" and nws: "\<forall>w'\<in>set ws. needs_connect s0 w'"
    using assms(3) e by auto
  from concurrent_connects_run[OF assms(1) nw nws assms(4) pc]
  obtain ps2 where run: "concurrent_connects env (w # ws) late s0 =
           (Started # replicate (length ws) Awaiting @ ps2,
            replicate (Suc (length ws) + length late)
              (Some (case r of Inl e \<Rightarrow> Inl e | Inr c \<Rightarrow> Inr (getState s2))),
            s2\<lparr>connectPromise := None\<rparr>, t2)"
      and ps2: "Started \<notin> set ps2"
    by blast
  from run assms(5) e have steps: "steps = Started # replicate (length ws) Awaiting @ ps2"
    and rs: "rs = replicate (length early + length late)
              (Some (case r of Inl e \<Rightarrow> Inl e | Inr c \<Rightarrow> Inr (getState s2)))"
    and s': "s' = s2\<lparr>connectPromise := None\<rparr>" and t: "t = t2"
    by auto
  have one: "length (filter (\<lambda>p. p = Started) steps) = 1"
    using steps ps2 by (auto simp: filter_empty_conv)
  have cl: "claims t \<le> 1 \<and> (claims t = 1) = reaches_claim env"
    using performConnect_claims[OF pc] t by simp
  have cp: "connectPromise s' = None"
    using s' by simp
  have out: "case (case r of Inl e \<Rightarrow> Inl e | Inr c \<Rightarrow> Inr (getState s2)) of
                 Inl e \<Rightarrow>
                   connection s' = None \<and>
                   (\<forall>w. toLowerCase (wallet_address w) \<noteq> [] \<longrightarrow> fst (connect w s') = Started)
               | Inr st \<Rightarrow>
                   claims t = 1 \<and> st = getState s' \<and> isConnected st \<and>
                   userAddress st = Some (toLowerCase (wallet_address (hd early))) \<and>
                   (\<exists>cid. claimChain env = Inr cid \<and> state_chainId st = Some cid)"
  proof (cases r)
    case (Inl err)
    have "s2 = (s0\<lparr>connectPromise := Some ?a\<rparr>)\<lparr>connection := None\<rparr>"
      using pc Inl by (auto dest: performConnect_failure)
    then have "connection s' = None" "connectPromise s' = None"
      using s' by simp_all
    then show ?thesis
      using Inl by (auto simp: connect_def Let_def)
  next
    case (Inr c)
    have "connection s2 = Some c \<and> address c = ?a \<and> claimChain env = Inr (chainId c) \<and>
          t2 = [ClaimChain (autoSignerAddress c), ChainSync (chainId c)]"
      using pc Inr by (auto dest: performConnect_success)
    then show ?thesis
      using Inr s' e t by (auto simp: getState_def claims_def)
  qed
  show ?thesis
    using one cl cp rs out by blast
qed

theorem connect_single_flight_witness:
  "connectPromise initial_world = None \<and>
   needs_connect initial_world (wallet_of ''0xABC'') \<and>
   needs_connect initial_world (wallet_of ''0xDEF'') \<and>
   toLowerCase (wallet_address (wallet_of ''0xabc'')) \<noteq> [] \<and>
   fst (concurrent_connects (succeeding ''chain-1'' ''0xauto'')
          [wallet_of ''0xABC'', wallet_of ''0xDEF''] [wallet_of ''0xabc''] initial_world) =
     [Started, Awaiting,
      Returned \<lparr>isConnected = True, state_chainId = Some ''chain-1'',
                userAddress = Some ''0xabc'', state_autoSignerAddress = Some ''0xauto''\<rparr>] \<and>
   fst (snd (concurrent_connects (succeeding ''chain-1'' ''0xauto'')
          [wallet_of ''0xABC'', wallet_of ''0xDEF''] [wallet_of ''0xabc''] initial_world)) =
     replicate 3
       (Some (Inr \<lparr>isConnected = True, state_chainId = Some ''chain-1'',
                   userAddress = Some ''0xabc'', state_autoSignerAddress = Some ''0xauto''\<rparr>)) \<and>
   claims (snd (snd (snd (concurrent_connects (succeeding ''chain-1'' ''0xauto'')
          [wallet_of ''0xABC'', wallet_of ''0xDEF''] [wallet_of ''0xabc''] initial_world)))) = 1 \<and>
   connectPromise (fst (snd (snd (concurrent_connects (succeeding ''chain-1'' ''0xauto'')
          [wallet_of ''0xABC'', wallet_of ''0xDEF''] [wallet_of ''0xabc''] initial_world)))) = None \<and>
   fst (snd (concurrent_connects (refusing (Error ''faucet drained'') ''0xauto'')
          [wallet_of ''0xABC'', wallet_of ''0xDEF''] [wallet_of ''0xabc''] initial_world)) =
     replicate 3 (Some (Inl (Error ''faucet drained''))) \<and>
   claims (snd (snd (snd (concurrent_connects (refusing (Error ''faucet drained'') ''0xauto'')
          [wallet_of ''0xABC'', wallet_of ''0xDEF''] [wallet_of ''0xabc''] initial_world)))) = 1 \<and>
   fst (connect (wallet_of ''0xABC'')
          (fst (snd (snd (concurrent_connects (refusing (Error ''faucet drained'') ''0xauto'')
             [wallet_of ''0xABC'', wallet_of ''0xDEF''] [wallet_of ''0xabc''] initial_world)))))
     = Started"
proof -
  let ?early = "[wallet_of ''0xABC'', wallet_of ''0xDEF'']"
  let ?late = "[wallet_of ''0xabc'']"
  let ?env = "succeeding ''chain-1'' ''0xauto''"
  let ?run = "concurrent_connects ?env ?early ?late initial_world"
  have h1: "connectPromise initial_world = None"
    by (simp add: initial_world_def)
  have h2: "?early \<noteq> []"
    by simp
  have n: "needs_connect initial_world (wallet_of ''0xABC'')"
      "needs_connect initial_world (wallet_of ''0xDEF'')"
    by (simp_all add: needs_connect_def connect_eval)
  then have h3: "\<forall>w\<in>set ?early. needs_connect initial_world w"
    by simp
  have l: "toLowerCase (wallet_address (wallet_of ''0xabc'')) \<noteq> []"
    by (simp add: connect_eval)
  then have h4: "\<forall>w\<in>set ?late. toLowerCase (wallet_address w) \<noteq> []"
    by simp
  have run: "?run = (fst ?run, fst (snd ?run), fst (snd (snd ?run)), snd (snd (snd ?run)))"
    by simp
  have env: "reaches_claim ?env"
    by (simp add: succeeding_def reaches_claim_def)
  have steps: "fst ?run =
     [Started, Awaiting,
      Returned \<lparr>isConnected = True, state_chainId = Some ''chain-1'',
                userAddress = Some ''0xabc'', state_autoSignerAddress = Some ''0xauto''\<rparr>]"
    by (simp add: connect_eval)
  have rs: "fst (snd ?run) =
     replicate 3
       (Some (Inr \<lparr>isConnected = True, state_chainId = Some ''chain-1'',
                   userAddress = Some ''0xabc'', state_autoSignerAddress = Some ''0xauto''\<rparr>))"
    by (simp add: connect_eval numeral_3_eq_3)
  let ?env2 = "refusing (Error ''faucet drained'') ''0xauto''"
  let ?run2 = "concurrent_connects ?env2 ?early ?late initial_world"
  have run2: "?run2 = (fst ?run2, fst (snd ?run2), fst (snd (snd ?run2)), snd (snd (snd ?run2)))"
    by simp
  have env2: "reaches_claim ?env2"
    by (simp add: refusing_def reaches_claim_def)
  have rs2: "fst (snd ?run2) = replicate 3 (Some (Inl (Error ''faucet drained'')))"
    by (simp add: connect_eval numeral_3_eq_3)
  have retry: "fst (connect (wallet_of ''0xABC'') (fst (snd (snd ?run2)))) = Started"
    by (simp add: connect_eval)
  from connect_single_flight[OF h1 h2 h3 h4 run] connect_single_flight[OF h1 h2 h3 h4 run2]
       env env2 h1 n l steps rs rs2 retry
  show ?thesis
    by simp
qed

text \<open>
  The claim as stated fails in two ways. A session for \<^verbatim>\<open>0xabc\<close> exists and
  \<^verbatim>\<open>connect\<close> is called for \<^verbatim>\<open>0xDEF\<close> and then, before that call resolves, for
  \<^verbatim>\<open>0xABC\<close>: the second call returns the old session at once, the first resolves to the new
  one, so the two calls resolve to different identities. And when the WASM module does not
  load, two concurrent calls on a fresh adapter make no partition claim at all.
\<close>

theorem connect_identities_counterexample:
  "fst (snd (concurrent_connects (succeeding ''chain-new'' ''0xauto2'')
          [wallet_of ''0xDEF'', wallet_of ''0xABC''] []
          (session ''chain-old'' ''0xabc'' ''0xauto''))) =
     [Some (Inr \<lparr>isConnected = True, state_chainId = Some ''chain-new'',
                 userAddress = Some ''0xdef'', state_autoSignerAddress = Some ''0xauto2''\<rparr>),
      Some (Inr \<lparr>isConnected = True, state_chainId = Some ''chain-old'',
                 userAddress = Some ''0xabc'', state_autoSignerAddress = Some ''0xauto''\<rparr>)] \<and>
   claims (snd (snd (snd (concurrent_connects (succeeding ''chain-new'' ''0xauto2'')
          [wallet_of ''0xDEF'', wallet_of ''0xABC''] []
          (session ''chain-old'' ''0xabc'' ''0xauto''))))) = 1 \<and>
   fst (snd (concurrent_connects (unloadable (Error ''module failed to load''))
          [wallet_of ''0xABC'', wallet_of ''0xDEF''] [] initial_world)) =
     [Some (Inl (Error ''module failed to load'')), Some (Inl (Error ''module failed to load''))] \<and>
   claims (snd (snd (snd (concurrent_connects (unloadable (Error ''module failed to load''))
          [wallet_of ''0xABC'', wallet_of ''0xDEF''] [] initial_world)))) = 0"
  by (simp add: connect_eval session_def unloadable_def claims_def)

subsection \<open>The application binding across a re-connect\<close>

lemma query_binds:
  assumes "connection s = Some c0" "appConnection s = None"
      and "bind env = None" "APPLICATION_ID env \<noteq> []"
      and "query env q v s = (r, s1, t)"
  shows "s1 = s\<lparr>appConnection :=
                   Some \<lparr>application = \<lparr>app_chain = chainId c0, app_id = APPLICATION_ID env\<rparr>,
                         applicationId = APPLICATION_ID env\<rparr>\<rparr>"
  using assms
  by (auto simp: query_def ensure_application_def connectApplication_def Let_def
      split: sum.splits option.splits)

lemma query_uses_cached:
  assumes "connection s = Some c" "appConnection s = Some a"
  shows "snd (query env q v s) = (s, [AppQuery (application a) q (or_empty v)])"
  using assms
  by (auto simp: query_def ensure_application_def Let_def split: sum.splits option.splits)

text \<open>
  C10. A session for the address of \<open>c0\<close> exists and its first \<^verbatim>\<open>query\<close> binds the
  application; then a \<^verbatim>\<open>connect\<close> for a wallet with another address goes through. The
  connection is replaced by one for the new address and the chain the faucet handed out,
  the cached binding is the one resolved under the chain of \<open>c0\<close>, and the next
  \<^verbatim>\<open>query\<close> sends its payload to that old handle. \<^verbatim>\<open>performConnect\<close> never writes the
  binding; \<^verbatim>\<open>connectApplication\<close> with the cached id returns the cache untouched, with
  another id it resolves a handle under the new chain and replaces the cache, and
  \<^verbatim>\<open>disconnect\<close> clears it.
\<close>

theorem reconnect_keeps_binding:
  assumes "connection s = Some c0" "appConnection s = None" "connectPromise s = None"
      and "bind env1 = None" "APPLICATION_ID env1 \<noteq> []"
      and "query env1 q1 v1 s = (r1, s1, t1)"
      and "needs_connect s w"
      and "concurrent_connects cenv [w] [] s1 = (steps, [Some (Inr st)], s2, t2)"
  shows "steps = [Started] \<and>
         appConnection s1 =
           Some \<lparr>application = \<lparr>app_chain = chainId c0, app_id = APPLICATION_ID env1\<rparr>,
                 applicationId = APPLICATION_ID env1\<rparr> \<and>
         appConnection s2 = appConnection s1 \<and>
         snd (snd (query env2 q2 v2 s2)) =
           [AppQuery \<lparr>app_chain = chainId c0, app_id = APPLICATION_ID env1\<rparr> q2 (or_empty v2)] \<and>
         (\<forall>env u x. appConnection (fst (snd (performConnect env u x))) = appConnection x) \<and>
         (\<forall>b. connectApplication b (APPLICATION_ID env1) s2 =
                (Inr \<lparr>application = \<lparr>app_chain = chainId c0, app_id = APPLICATION_ID env1\<rparr>,
                      applicationId = APPLICATION_ID env1\<rparr>, s2, [])) \<and>
         appConnection (disconnect s2) = None \<and>
         (\<exists>c. connection s2 = Some c \<and> address c = toLowerCase (wallet_address w) \<and>
              address c \<noteq> address c0 \<and> claimChain cenv = Inr (chainId c) \<and>
              (\<forall>other. other \<noteq> [] \<and> other \<noteq> APPLICATION_ID env1 \<longrightarrow>
                 appConnection (fst (snd (connectApplication None other s2))) =
                   Some \<lparr>application = \<lparr>app_chain = chainId c, app_id = other\<rparr>,
                         applicationId = other\<rparr>))"
proof -
  let ?a0 = "\<lparr>application = \<lparr>app_chain = chainId c0, app_id = APPLICATION_ID env1\<rparr>,
              applicationId = APPLICATION_ID env1\<rparr>"
  let ?u = "toLowerCase (wallet_address w)"
  have s1: "s1 = s\<lparr>appConnection := Some ?a0\<rparr>"
    using assms(1,2,4,5,6) by (rule query_binds)
  have cp1: "connectPromise s1 = None" and nc1: "needs_connect s1 w"
    using s1 assms(3,7) by (simp_all add: needs_connect_def)
  obtain r x t where pc: "performConnect cenv ?u (s1\<lparr>connectPromise := Some ?u\<rparr>) = (r, x, t)"
    by (cases "performConnect cenv ?u (s1\<lparr>connectPromise := Some ?u\<rparr>)")
  have "concurrent_connects cenv [w] [] s1 =
           ([Started], [Some (case r of Inl e \<Rightarrow> Inl e | Inr c \<Rightarrow> Inr (getState x))],
            x\<lparr>connectPromise := None\<rparr>, t)"
    using concurrent_connects_run[of s1 w "[]" "[]" cenv r x t] cp1 nc1 pc by simp
  with assms(8) have steps: "steps = [Started]" and s2: "s2 = x\<lparr>connectPromise := None\<rparr>"
    and r: "Inr st = (case r of Inl e \<Rightarrow> Inl e | Inr c \<Rightarrow> Inr (getState x))"
    by auto
  from r obtain c where rc: "r = Inr c"
    by (cases r) auto
  have c: "connection x = Some c \<and> address c = ?u \<and> claimChain cenv = Inr (chainId c)"
    using pc rc by (auto dest: performConnect_success)
  have ax: "appConnection x = Some ?a0"
    using performConnect_appConnection[of cenv ?u "s1\<lparr>connectPromise := Some ?u\<rparr>"] pc s1
    by simp
  have differs: "address c \<noteq> address c0"
    using c assms(1,7) by (auto simp: needs_connect_def)
  have q: "snd (query env2 q2 v2 s2) = (s2, [AppQuery (application ?a0) q2 (or_empty v2)])"
    by (rule query_uses_cached[of s2 c]) (use c ax s2 in simp_all)
  have ca: "connectApplication b (APPLICATION_ID env1) s2 = (Inr ?a0, s2, [])" for b
    using c ax s2 by (simp add: connectApplication_def)
  have other: "appConnection (fst (snd (connectApplication None other s2))) =
                   Some \<lparr>application = \<lparr>app_chain = chainId c, app_id = other\<rparr>,
                         applicationId = other\<rparr>"
    if "other \<noteq> []" "other \<noteq> APPLICATION_ID env1" for other
    using that c ax s2 by (simp add: connectApplication_def Let_def)
  have conn2: "connection s2 = Some c"
    using c s2 by simp
  have "\<exists>c. connection s2 = Some c \<and> address c = ?u \<and>
              address c \<noteq> address c0 \<and> claimChain cenv = Inr (chainId c) \<and>
              (\<forall>other. other \<noteq> [] \<and> other \<noteq> APPLICATION_ID env1 \<longrightarrow>
                 appConnection (fst (snd (connectApplication None other s2))) =
                   Some \<lparr>application = \<lparr>app_chain = chainId c, app_id = other\<rparr>,
                         applicationId = other\<rparr>)"
    using conn2 c differs other by blast
  then show ?thesis
    using steps s1 ax s2 q ca performConnect_appConnection
    by (simp add: disconnect_def Let_def)
qed

theorem reconnect_keeps_binding_witness:
  "needs_connect (session ''chain-old'' ''0xabc'' ''0xauto'') (wallet_of ''0xDEF'') \<and>
   fst (snd (concurrent_connects (succeeding ''chain-new'' ''0xauto2'') [wallet_of ''0xDEF''] []
     (fst (snd (query (answering (ok ()) InboxProcessed) ''query Q'' None
                  (session ''chain-old'' ''0xabc'' ''0xauto'')))))) =
     [Some (Inr \<lparr>isConnected = True, state_chainId = Some ''chain-new'',
                 userAddress = Some ''0xdef'', state_autoSignerAddress = Some ''0xauto2''\<rparr>)] \<and>
   snd (snd (query (answering (ok ()) InboxProcessed) ''query R'' None
     (fst (snd (snd (concurrent_connects (succeeding ''chain-new'' ''0xauto2'')
        [wallet_of ''0xDEF''] []
        (fst (snd (query (answering (ok ()) InboxProcessed) ''query Q'' None
                     (session ''chain-old'' ''0xabc'' ''0xauto''))))))))))
     = [AppQuery \<lparr>app_chain = ''chain-old'', app_id = ''app-1''\<rparr> ''query R'' []]"
proof -
  let ?s = "session ''chain-old'' ''0xabc'' ''0xauto''"
  let ?e = "answering (ok ()) InboxProcessed :: unit call_env"
  let ?c0 = "\<lparr>chainId = ''chain-old'', address = ''0xabc'', autoSignerAddress = ''0xauto''\<rparr>"
  let ?q1 = "query ?e ''query Q'' None ?s"
  let ?s1 = "fst (snd ?q1)"
  let ?run = "concurrent_connects (succeeding ''chain-new'' ''0xauto2'') [wallet_of ''0xDEF''] [] ?s1"
  let ?st = "\<lparr>isConnected = True, state_chainId = Some ''chain-new'',
              userAddress = Some ''0xdef'', state_autoSignerAddress = Some ''0xauto2''\<rparr>"
  have h1: "connection ?s = Some ?c0" and h2: "appConnection ?s = None"
    and h3: "connectPromise ?s = None"
    by (simp_all add: session_def)
  have h4: "bind ?e = None" and h5: "APPLICATION_ID ?e \<noteq> []"
    by (simp_all add: answering_def)
  have h6: "?q1 = (fst ?q1, ?s1, snd (snd ?q1))"
    by simp
  have h7: "needs_connect ?s (wallet_of ''0xDEF'')"
    by (simp add: needs_connect_def session_def connect_eval)
  have rs: "fst (snd ?run) = [Some (Inr ?st)]"
    by (simp add: connect_eval adapter_eval)
  have h8: "?run = (fst ?run, [Some (Inr ?st)], fst (snd (snd ?run)), snd (snd (snd ?run)))"
    using rs by (metis prod.collapse)
  from reconnect_keeps_binding[OF h1 h2 h3 h4 h5 h6 h7 h8, of ?e "''query R''" None] h7 rs
  show ?thesis
    by (simp add: answering_def or_empty_def)
qed

subsection \<open>The signer's owner check\<close>

lemma DynamicSigner_address_wallet:
  "DynamicSigner_address sg = (r, sg1) \<Longrightarrow> wallet sg1 = wallet sg"
  by (auto simp: DynamicSigner_address_def Let_def split: option.splits if_splits)

lemma uint8ArrayToHex_length: "length (uint8ArrayToHex bytes) = 2 * length bytes"
  by (induction bytes) (auto simp: uint8ArrayToHex_def padStart_def toString16_def)

text \<open>
  C8, as amended. When the signer's \<^verbatim>\<open>address()\<close> resolves, \<^verbatim>\<open>sign(owner, value)\<close>
  fails with the owner-mismatch error exactly when the lowercased owner differs from that
  address. When they agree, the result is the wallet's answer to the bytes written as
  \<^verbatim>\<open>0x\<close> and two hexadecimal digits per byte: its signature, or a signing error that
  wraps what the wallet threw. For a signer that has not cached an address yet, the address
  is the wallet's address in lower case.
\<close>

theorem sign_owner_check:
  assumes "DynamicSigner_address sg = (Inr myAddress, sg1)"
  shows "(fst (sign owner val sg) =
            Inl (Error (''Owner '' @ owner @ '' does not match wallet address '' @ myAddress)))
           = (toLowerCase owner \<noteq> myAddress) \<and>
         (toLowerCase owner = myAddress \<longrightarrow>
            fst (sign owner val sg) =
              (case signMessage (wallet sg) (''0x'' @ uint8ArrayToHex val) of
                 Inl err \<Rightarrow>
                   Inl (Error (''Failed to sign with Dynamic wallet: '' @ message_or_string err))
               | Inr signature \<Rightarrow> Inr signature)) \<and>
         length (uint8ArrayToHex val) = 2 * length val \<and>
         (cachedAddress sg = None \<longrightarrow>
            myAddress = toLowerCase (wallet_address (wallet sg)))"
proof -
  have w: "wallet sg1 = wallet sg"
    using assms by (rule DynamicSigner_address_wallet)
  have fresh: "cachedAddress sg = None \<Longrightarrow> myAddress = toLowerCase (wallet_address (wallet sg))"
    using assms by (auto simp: DynamicSigner_address_def Let_def split: if_splits)
  show ?thesis
    using assms w fresh uint8ArrayToHex_length[of val]
    by (auto simp: sign_def split: sum.splits)
qed

theorem sign_owner_check_witness:
  "DynamicSigner_address \<lparr>wallet = wallet_of ''0xAbC'', cachedAddress = None\<rparr> =
     (Inr ''0xabc'', \<lparr>wallet = wallet_of ''0xAbC'', cachedAddress = Some ''0xabc''\<rparr>) \<and>
   fst (sign ''0xabC'' [1, 255] \<lparr>wallet = wallet_of ''0xAbC'', cachedAddress = None\<rparr>) =
     Inr ''signed:0x01ff'' \<and>
   fst (sign ''0xdef'' [1, 255] \<lparr>wallet = wallet_of ''0xAbC'', cachedAddress = None\<rparr>) =
     Inl (Error ''Owner 0xdef does not match wallet address 0xabc'') \<and>
   fst (sign ''0xabc'' [1, 255]
          \<lparr>wallet = \<lparr>wallet_address = ''0xabc'', signMessage = declines\<rparr>,
            cachedAddress = Some ''0xabc''\<rparr>) =
     Inl (Error ''Failed to sign with Dynamic wallet: User rejected the request'')"
proof -
  let ?sg = "\<lparr>wallet = wallet_of ''0xAbC'', cachedAddress = None\<rparr>"
  have a: "DynamicSigner_address ?sg =
      (Inr ''0xabc'', \<lparr>wallet = wallet_of ''0xAbC'', cachedAddress = Some ''0xabc''\<rparr>)"
    by (simp add: DynamicSigner_address_def wallet_of_def toLowerCase_def lower_char_def Let_def)
  have l1: "toLowerCase ''0xabC'' = ''0xabc''" and l2: "toLowerCase ''0xdef'' \<noteq> ''0xabc''"
    by (simp_all add: toLowerCase_def lower_char_def)
  have hex: "uint8ArrayToHex [1, 255] = ''01ff''"
    by (simp add: uint8ArrayToHex_def toString16_def padStart_def hex_digit_def)
  let ?sg2 = "\<lparr>wallet = \<lparr>wallet_address = ''0xabc'', signMessage = declines\<rparr>,
               cachedAddress = Some ''0xabc''\<rparr>"
  have a2: "DynamicSigner_address ?sg2 = (Inr ''0xabc'', ?sg2)"
    by (simp add: DynamicSigner_address_def)
  have l3: "toLowerCase ''0xabc'' = ''0xabc''"
    by (simp add: toLowerCase_def lower_char_def)
  from sign_owner_check[OF a, of "''0xabC''" "[1, 255]"]
       sign_owner_check[OF a, of "''0xdef''" "[1, 255]"]
       sign_owner_check[OF a2, of "''0xabc''" "[1, 255]"] a l1 l2 l3 hex
  show ?thesis
    by (simp add: wallet_of_def approves_def declines_def)
qed

text \<open>
  The claim as stated fails on an owner that differs from the signer's address only in the
  case of its letters: the owner is not equal to \<^verbatim>\<open>address()\<close>, and the call signs.
\<close>

theorem sign_case_counterexample:
  "fst (DynamicSigner_address \<lparr>wallet = wallet_of ''0xabc'', cachedAddress = None\<rparr>) =
     Inr ''0xabc'' \<and>
   ''0xABC'' \<noteq> ''0xabc'' \<and>
   fst (sign ''0xABC'' [1, 255] \<lparr>wallet = wallet_of ''0xabc'', cachedAddress = None\<rparr>) =
     Inr ''signed:0x01ff''"
  by (simp add: sign_def DynamicSigner_address_def wallet_of_def approves_def toLowerCase_def
      lower_char_def uint8ArrayToHex_def toString16_def padStart_def hex_digit_def Let_def)

subsection \<open>The poll loop: change detection and backoff\<close>

text \<open>
  The rounding behind \<^verbatim>\<open>currentInterval * 1.5\<close>: the exponent is the binary exponent,
  and a finite result is within half a quantum of the real it rounds.
\<close>

lemma round_half_even_nearest: "\<bar>of_int (round_half_even x) - x\<bar> \<le> 1 / 2"
  unfolding round_half_even_def Let_def
  by (auto simp: abs_le_iff)

lemma ilog2_bounds:
  assumes "0 < x"
  shows "pow2 (ilog2 x) \<le> x \<and> x < pow2 (ilog2 x + 1)"
proof (cases "1 \<le> x")
  case True
  let ?n = "\<lfloor>x\<rfloor>"
  have n: "0 < ?n" using True by simp
  have b: "2 ^ nat (bitlen ?n - 1) \<le> ?n \<and> ?n < 2 ^ nat (bitlen ?n)"
    using bitlen_bounds[OF n] .
  have k: "1 \<le> bitlen ?n"
    using n bitlen_eq_zero_iff[of ?n] bitlen_nonneg[of ?n] by linarith
  have lo: "(2::real) ^ nat (bitlen ?n - 1) \<le> x"
  proof -
    have "(2::real) ^ nat (bitlen ?n - 1) = of_int (2 ^ nat (bitlen ?n - 1))" by simp
    also have "\<dots> \<le> of_int ?n" using b by (simp only: of_int_le_iff)
    also have "\<dots> \<le> x" by simp
    finally show ?thesis .
  qed
  have hi: "x < (2::real) ^ nat (bitlen ?n)"
  proof -
    have "?n + 1 \<le> 2 ^ nat (bitlen ?n)" using b by simp
    then have "of_int (?n + 1) \<le> (of_int (2 ^ nat (bitlen ?n)) :: real)"
      by (simp only: of_int_le_iff)
    moreover have "x < of_int (?n + 1)" by linarith
    ultimately have "x < real_of_int (2 ^ nat (bitlen ?n))" by linarith
    then show ?thesis by simp
  qed
  show ?thesis
    using True k lo hi by (simp add: ilog2_def pow2_def)
next
  case False
  let ?c = "\<lceil>1 / x\<rceil>"
  have x1: "1 < 1 / x" using False assms by simp
  then have c2: "2 \<le> ?c" by linarith
  then have n: "0 < ?c - 1" by simp
  let ?k = "bitlen (?c - 1)"
  have b: "2 ^ nat (?k - 1) \<le> ?c - 1 \<and> ?c - 1 < 2 ^ nat ?k"
    using bitlen_bounds[OF n] .
  have k: "1 \<le> ?k"
    using n bitlen_eq_zero_iff[of "?c - 1"] bitlen_nonneg[of "?c - 1"] by linarith
  have up: "1 / x \<le> (2::real) ^ nat ?k"
  proof -
    have "?c \<le> 2 ^ nat ?k" using b by simp
    then have "(of_int ?c :: real) \<le> of_int (2 ^ nat ?k)" by (simp only: of_int_le_iff)
    moreover have "1 / x \<le> of_int ?c" by simp
    ultimately have "1 / x \<le> real_of_int (2 ^ nat ?k)" by linarith
    then show ?thesis by simp
  qed
  have down: "(2::real) ^ nat (?k - 1) < 1 / x"
  proof -
    have "(of_int (2 ^ nat (?k - 1)) :: real) \<le> of_int (?c - 1)"
      using b by (simp only: of_int_le_iff)
    moreover have "of_int (?c - 1) < 1 / x" by linarith
    ultimately have "real_of_int (2 ^ nat (?k - 1)) < 1 / x" by linarith
    then show ?thesis by simp
  qed
  have lo: "1 / (2::real) ^ nat ?k \<le> x"
    using up assms by (simp add: field_simps)
  have hi: "x < 1 / (2::real) ^ nat (?k - 1)"
    using down assms by (simp add: field_simps)
  have nk: "nat (?k - 1) = nat ?k - 1" by simp
  show ?thesis
  proof (cases "?k = 1")
    case True
    with lo hi False show ?thesis by (simp add: ilog2_def pow2_def)
  next
    case F: False
    with k have "1 < ?k" by simp
    with lo hi False show ?thesis
      by (simp add: ilog2_def pow2_def nat_diff_distrib)
  qed
qed


lemma pow2_pos: "0 < pow2 k"
  by (simp add: pow2_def)

lemma scaled_abs:
  fixes n p x :: real
  assumes "0 < p"
  shows "\<bar>n * p - x\<bar> = \<bar>n - x / p\<bar> * p"
proof -
  have "\<bar>n - x / p\<bar> * p = \<bar>(n - x / p) * p\<bar>"
    using assms by (simp add: abs_mult)
  also have "(n - x / p) * p = n * p - x"
    using assms by (simp add: field_simps)
  finally show ?thesis
    by simp
qed

lemma to_double_nearest:
  assumes "to_double x = Finite r"
  shows "\<bar>r - x\<bar> \<le> pow2 (max (ilog2 \<bar>x\<bar> - 52) (- 1074)) / 2"
proof (cases "x = 0")
  case True
  with assms show ?thesis
    using pow2_pos[of "max (ilog2 \<bar>x\<bar> - 52) (- 1074)"] by (simp add: to_double_def)
next
  case False
  let ?q = "max (ilog2 \<bar>x\<bar> - 52) (- 1074)"
  have r: "r = of_int (round_half_even (x / pow2 ?q)) * pow2 ?q"
    using assms False by (simp add: to_double_def Let_def split: if_splits)
  have p: "0 < pow2 ?q"
    by (rule pow2_pos)
  have "\<bar>r - x\<bar> = \<bar>of_int (round_half_even (x / pow2 ?q)) - x / pow2 ?q\<bar> * pow2 ?q"
    unfolding r using p by (rule scaled_abs)
  also have "\<dots> \<le> 1 / 2 * pow2 ?q"
    using round_half_even_nearest[of "x / pow2 ?q"] p by (intro mult_right_mono) simp_all
  finally show ?thesis
    by simp
qed

lemma backoff_twice:
  fixes i m :: real
  assumes "0 \<le> i" "0 \<le> m"
  shows "min (min (i * 3 / 2) m * 3 / 2) m = min (i * (3 / 2) ^ 2) m"
  using assms by (auto simp: min_def power2_eq_square algebra_simps)

lemmas double_eval =
  to_double_def ilog2_def round_half_even_def pow2_def compute_bitlen Let_def

text \<open>
  C4, as amended. The loop may poll at least four times and the four fetches deliver rooms
  \<open>a\<close>, \<open>a\<close>, \<open>a\<close>, \<open>b\<close> whose JSON texts differ. The callback is called twice, on the
  first fetch with \<open>a\<close> and on the fourth with \<open>b\<close>. The timers are set with the base
  interval after the first fetch; after the second and the third with the previous delay
  times 1.5, the product rounded as a double, capped at the maximal interval; and with the
  base interval again after the fourth. When base and maximal interval are finite and not
  negative and neither of the two products is changed by rounding, these two delays are
  base times 1.5 and base times 1.5 squared, each capped at the maximal interval.
\<close>

theorem poll_backoff:
  assumes "stringify p a \<noteq> stringify p b"
      and "4 \<le> maxPolls p"
  shows "fst (pollRoomUpdates p [delivers a, delivers a, delivers a, delivers b]) =
           [Fetch, Callback a, Timeout (interval p),
            Fetch, Timeout (Math_min (times_1_5 (interval p)) (maxInterval p)),
            Fetch, Timeout (Math_min (times_1_5 (Math_min (times_1_5 (interval p))
                                                   (maxInterval p)))
                              (maxInterval p)),
            Fetch, Callback b, Timeout (interval p)] \<and>
         callbacks (fst (pollRoomUpdates p [delivers a, delivers a, delivers a, delivers b])) =
           [a, b] \<and>
         (\<forall>i m. interval p = Finite i \<and> maxInterval p = Finite m \<and> 0 \<le> i \<and> 0 \<le> m \<and>
                times_1_5 (Finite i) = Finite (i * 3 / 2) \<and>
                times_1_5 (Finite (min (i * 3 / 2) m)) = Finite (min (i * 3 / 2) m * 3 / 2) \<longrightarrow>
            Math_min (times_1_5 (interval p)) (maxInterval p) = Finite (min (i * 3 / 2) m) \<and>
            Math_min (times_1_5 (Math_min (times_1_5 (interval p)) (maxInterval p)))
              (maxInterval p) = Finite (min (i * (3 / 2) ^ 2) m))"
proof -
  have tr: "fst (pollRoomUpdates p [delivers a, delivers a, delivers a, delivers b]) =
           [Fetch, Callback a, Timeout (interval p),
            Fetch, Timeout (Math_min (times_1_5 (interval p)) (maxInterval p)),
            Fetch, Timeout (Math_min (times_1_5 (Math_min (times_1_5 (interval p))
                                                   (maxInterval p)))
                              (maxInterval p)),
            Fetch, Callback b, Timeout (interval p)]"
    using assms
    by (simp add: pollRoomUpdates_def delivers_def on_fetched_def Let_def cancel_if_def
        cancel_event_def del: times_1_5.simps Math_min.simps)
  have exact: "Math_min (times_1_5 (interval p)) (maxInterval p) = Finite (min (i * 3 / 2) m) \<and>
            Math_min (times_1_5 (Math_min (times_1_5 (interval p)) (maxInterval p)))
              (maxInterval p) = Finite (min (i * (3 / 2) ^ 2) m)"
    if "interval p = Finite i" "maxInterval p = Finite m" "0 \<le> i" "0 \<le> m"
       "times_1_5 (Finite i) = Finite (i * 3 / 2)"
       "times_1_5 (Finite (min (i * 3 / 2) m)) = Finite (min (i * 3 / 2) m * 3 / 2)" for i m
  proof -
    have 1: "Math_min (times_1_5 (interval p)) (maxInterval p) = Finite (min (i * 3 / 2) m)"
      using that(1,2,5) by (simp del: times_1_5.simps)
    have 2: "Math_min (times_1_5 (Finite (min (i * 3 / 2) m))) (maxInterval p) =
               Finite (min (min (i * 3 / 2) m * 3 / 2) m)"
      using that(2,6) by (simp del: times_1_5.simps)
    show ?thesis
      using 1 2 backoff_twice[OF that(3,4)] by (simp del: times_1_5.simps)
  qed
  have cb: "callbacks (fst (pollRoomUpdates p [delivers a, delivers a, delivers a, delivers b]))
              = [a, b]"
    unfolding tr by (simp add: callbacks_def)
  show ?thesis
    using tr cb exact by blast
qed

theorem poll_backoff_witness:
  "stringify (default_params stringify_text) (Some ''A'') \<noteq>
     stringify (default_params stringify_text) (Some ''B'') \<and>
   4 \<le> maxPolls (default_params stringify_text) \<and>
   times_1_5 (Finite 2000) = Finite (2000 * 3 / 2) \<and>
   times_1_5 (Finite (min (2000 * 3 / 2) 5000)) = Finite (min (2000 * 3 / 2) 5000 * 3 / 2) \<and>
   fst (pollRoomUpdates (default_params stringify_text)
          [delivers (Some ''A''), delivers (Some ''A''), delivers (Some ''A''),
           delivers (Some ''B'')]) =
     [Fetch, Callback (Some ''A''), Timeout (Finite 2000), Fetch, Timeout (Finite 3000),
      Fetch, Timeout (Finite 4500), Fetch, Callback (Some ''B''), Timeout (Finite 2000)]"
proof -
  let ?p = "default_params stringify_text"
  have h1: "stringify ?p (Some ''A'') \<noteq> stringify ?p (Some ''B'')"
    by (simp add: default_params_def stringify_text_def)
  have h2: "4 \<le> maxPolls ?p"
    by (simp add: default_params_def)
  have i: "interval ?p = Finite 2000" and m: "maxInterval ?p = Finite 5000"
    by (simp_all add: default_params_def)
  have e1: "times_1_5 (Finite 2000) = Finite (2000 * 3 / 2)"
    by (simp add: double_eval)
  have e2: "times_1_5 (Finite (min (2000 * 3 / 2) 5000)) = Finite (min (2000 * 3 / 2) 5000 * 3 / 2)"
    by (simp add: double_eval)
  from poll_backoff[OF h1 h2] h1 h2 i m e1 e2
  show ?thesis
    by (simp add: power2_eq_square del: times_1_5.simps)
qed

text \<open>
  The claim as stated fails for the base interval \<^verbatim>\<open>0.1\<close>: the timer after the third
  fetch is set with 0.22500000000000003, the double that two rounded multiplications
  give, which is neither the base times 1.5 squared nor that product rounded once
  (0.225); the cap of 5000 is far away.
\<close>

theorem poll_backoff_rounding_counterexample:
  "fst (pollRoomUpdates (tenth_params stringify_text)
          [delivers (Some ''A''), delivers (Some ''A''), delivers (Some ''A''),
           delivers (Some ''B'')]) =
     [Fetch, Callback (Some ''A''), Timeout (Finite (3602879701896397 / 36028797018963968)),
      Fetch, Timeout (Finite (1351079888211149 / 9007199254740992)),
      Fetch, Timeout (Finite (4053239664633447 / 18014398509481984)),
      Fetch, Callback (Some ''B''), Timeout (Finite (3602879701896397 / 36028797018963968))] \<and>
   (4053239664633447 / 18014398509481984 :: real) \<noteq>
     3602879701896397 / 36028797018963968 * (3 / 2) ^ 2 \<and>
   to_double (3602879701896397 / 36028797018963968 * (3 / 2) ^ 2) =
     Finite (8106479329266893 / 36028797018963968) \<and>
   (4053239664633447 / 18014398509481984 :: real) \<noteq> 8106479329266893 / 36028797018963968"
proof -
  have b: "to_double (1 / 10) = Finite (3602879701896397 / 36028797018963968)"
    by (simp add: double_eval)
  have e1: "times_1_5 (Finite (3602879701896397 / 36028797018963968)) =
              Finite (1351079888211149 / 9007199254740992)"
    by (simp add: double_eval)
  have e2: "times_1_5 (Finite (1351079888211149 / 9007199254740992)) =
              Finite (4053239664633447 / 18014398509481984)"
    by (simp add: double_eval)
  have once: "to_double (3602879701896397 / 36028797018963968 * (3 / 2) ^ 2) =
     Finite (8106479329266893 / 36028797018963968)"
    by (simp add: double_eval power2_eq_square)
  have tr: "fst (pollRoomUpdates (tenth_params stringify_text)
          [delivers (Some ''A''), delivers (Some ''A''), delivers (Some ''A''),
           delivers (Some ''B'')]) =
     [Fetch, Callback (Some ''A''), Timeout (Finite (3602879701896397 / 36028797018963968)),
      Fetch, Timeout (Finite (1351079888211149 / 9007199254740992)),
      Fetch, Timeout (Finite (4053239664633447 / 18014398509481984)),
      Fetch, Callback (Some ''B''), Timeout (Finite (3602879701896397 / 36028797018963968))]"
    by (simp add: pollRoomUpdates_def tenth_params_def stringify_text_def delivers_def
        on_fetched_def Let_def cancel_if_def cancel_event_def b e1 e2 del: times_1_5.simps)
  show ?thesis
    using tr once by (simp add: power2_eq_square)
qed

subsection \<open>The poll loop: cancellation\<close>

lemma poll_halted: "\<not> running s \<Longrightarrow> poll p ticks s = ([], s)"
  by (cases ticks) auto

lemma on_fetched_running: "on_fetched p f s = (ev, s') \<Longrightarrow> running s' = running s"
  by (auto simp: on_fetched_def Let_def split: sum.splits if_splits)

lemma on_fetched_events:
  "on_fetched p f s = (ev, s') \<Longrightarrow> ev = [] \<or> (\<exists>r. ev = [Callback r])"
  by (auto simp: on_fetched_def Let_def split: sum.splits if_splits)

lemma after_cancel_append:
  "after_cancel (xs @ ys) =
     (case after_cancel xs of Some post \<Rightarrow> Some (post @ ys) | None \<Rightarrow> after_cancel ys)"
  by (induction xs rule: after_cancel.induct) auto

text \<open>An iteration that gets as far as its fetch, by the point of cancellation.\<close>

lemma poll_step:
  assumes "running s" "\<not> int (pollCount s + 1) > maxPolls p"
      and "on_fetched p (fetched t)
             (cancel_if (cancelled t = DuringFetch) (s\<lparr>pollCount := pollCount s + 1\<rparr>)) =
           (ev, s3)"
  shows "poll p (t # ts) s =
          (case cancelled t of
             NoCancel \<Rightarrow>
               (Fetch # ev @ [Timeout (currentInterval s3)] @ fst (poll p ts s3),
                snd (poll p ts s3))
           | DuringFetch \<Rightarrow> (Fetch # Cancel # ev, s3)
           | InCallback \<Rightarrow>
               if ev = []
               then (Fetch # [Timeout (currentInterval s3)] @ fst (poll p ts s3),
                     snd (poll p ts s3))
               else (Fetch # ev @ [Cancel], cancel s3)
           | DuringSleep \<Rightarrow> (Fetch # ev @ [Timeout (currentInterval s3), Cancel], cancel s3))"
proof -
  have r3: "running s3 =
      running (cancel_if (cancelled t = DuringFetch) (s\<lparr>pollCount := pollCount s + 1\<rparr>))"
    using assms(3) by (rule on_fetched_running)
  show ?thesis
  proof (cases "cancelled t")
    case NoCancel
    with assms r3 show ?thesis
      by (simp add: Let_def cancel_if_def cancel_event_def split: prod.splits)
  next
    case DuringFetch
    with assms r3 show ?thesis
      by (simp add: Let_def cancel_if_def cancel_event_def cancel_def split: prod.splits)
  next
    case InCallback
    with assms r3 show ?thesis
      by (simp add: Let_def cancel_if_def cancel_event_def cancel_def split: prod.splits)
  next
    case DuringSleep
    with assms r3 show ?thesis
      by (simp add: Let_def cancel_if_def cancel_event_def cancel_def poll_halted
          split: prod.splits)
  qed
qed

lemma poll_after_cancel:
  "after_cancel (fst (poll p ticks s)) = Some post \<Longrightarrow>
     quiet post \<and> \<not> running (snd (poll p ticks s))"
proof (induction ticks arbitrary: s post)
  case Nil
  then show ?case by simp
next
  case (Cons t ts)
  show ?case
  proof (cases "running s \<and> \<not> int (pollCount s + 1) > maxPolls p")
    case False
    with Cons.prems show ?thesis
      by (cases "running s") (auto simp: Let_def)
  next
    case True
    obtain ev s3 where ev: "on_fetched p (fetched t)
        (cancel_if (cancelled t = DuringFetch) (s\<lparr>pollCount := pollCount s + 1\<rparr>)) = (ev, s3)"
      by (cases "on_fetched p (fetched t)
        (cancel_if (cancelled t = DuringFetch) (s\<lparr>pollCount := pollCount s + 1\<rparr>))")
    have evq: "ev = [] \<or> (\<exists>r. ev = [Callback r])"
      using ev by (rule on_fetched_events)
    have r3: "running s3 =
        running (cancel_if (cancelled t = DuringFetch) (s\<lparr>pollCount := pollCount s + 1\<rparr>))"
      using ev by (rule on_fetched_running)
    note step = poll_step[OF conjunct1[OF True] conjunct2[OF True] ev, of ts]
    show ?thesis
    proof (cases "cancelled t")
      case NoCancel
      with Cons.prems step evq have "after_cancel (fst (poll p ts s3)) = Some post"
        by (auto simp: after_cancel_append)
      then have "quiet post \<and> \<not> running (snd (poll p ts s3))"
        by (rule Cons.IH)
      with NoCancel step show ?thesis
        by simp
    next
      case DuringFetch
      with Cons.prems step evq r3 show ?thesis
        by (auto simp: quiet_def cancel_if_def cancel_def)
    next
      case InCallback
      show ?thesis
      proof (cases "ev = []")
        case True
        with InCallback Cons.prems step have "after_cancel (fst (poll p ts s3)) = Some post"
          by auto
        then have "quiet post \<and> \<not> running (snd (poll p ts s3))"
          by (rule Cons.IH)
        with InCallback True step show ?thesis
          by simp
      next
        case False
        with InCallback Cons.prems step evq show ?thesis
          by (auto simp: quiet_def after_cancel_append cancel_def)
      qed
    next
      case DuringSleep
      with Cons.prems step evq show ?thesis
        by (auto simp: quiet_def after_cancel_append cancel_def)
    qed
  qed
qed

text \<open>
  C7. Whatever the arguments, the state and the environment of the loop: in what the trace
  shows after the cancel function was first invoked there is no fetch and no timer, and at
  most one call of the callback, that of the fetch that was in flight; the loop is left
  halted, so that a timer that was already set finds nothing to do when it fires. An
  iteration entered after \<^verbatim>\<open>cancel\<close> returns at once.
\<close>

theorem cancel_stops_polling:
  "(after_cancel (fst (poll p ticks s)) = Some post \<longrightarrow>
      Fetch \<notin> set post \<and> (\<forall>d. Timeout d \<notin> set post) \<and> length (callbacks post) \<le> 1 \<and>
      \<not> running (snd (poll p ticks s)) \<and>
      poll p later (snd (poll p ticks s)) = ([], snd (poll p ticks s))) \<and>
   poll p later (cancel s) = ([], cancel s)"
proof -
  have "quiet post \<Longrightarrow>
      Fetch \<notin> set post \<and> (\<forall>d. Timeout d \<notin> set post) \<and> length (callbacks post) \<le> 1"
    by (auto simp: quiet_def callbacks_def)
  then show ?thesis
    using poll_after_cancel[of p ticks s post]
    by (auto simp: poll_halted cancel_def)
qed

theorem cancel_stops_polling_witness:
  "fst (pollRoomUpdates (default_params stringify_text)
          [delivers (Some ''A''),
           \<lparr>fetched = Inr (Some ''B''), cancelled = DuringFetch\<rparr>,
           delivers (Some ''C'')]) =
     [Fetch, Callback (Some ''A''), Timeout (Finite 2000), Fetch, Cancel, Callback (Some ''B'')] \<and>
   after_cancel (fst (pollRoomUpdates (default_params stringify_text)
          [delivers (Some ''A''),
           \<lparr>fetched = Inr (Some ''B''), cancelled = DuringFetch\<rparr>,
           delivers (Some ''C'')])) = Some [Callback (Some ''B'')] \<and>
   length (callbacks [Callback (Some ''B'')]) \<le> 1 \<and>
   \<not> running (snd (pollRoomUpdates (default_params stringify_text)
          [delivers (Some ''A''),
           \<lparr>fetched = Inr (Some ''B''), cancelled = DuringFetch\<rparr>,
           delivers (Some ''C'')]))"
proof -
  let ?p = "default_params stringify_text"
  let ?ticks = "[delivers (Some ''A''),
           \<lparr>fetched = Inr (Some ''B''), cancelled = DuringFetch\<rparr>,
           delivers (Some ''C'')]"
  let ?s = "\<lparr>currentInterval = interval ?p, lastRoom = None, running = True, pollCount = 0\<rparr>"
  have tr: "fst (poll ?p ?ticks ?s) =
     [Fetch, Callback (Some ''A''), Timeout (Finite 2000), Fetch, Cancel, Callback (Some ''B'')]"
    by (simp add: default_params_def stringify_text_def delivers_def on_fetched_def Let_def
        cancel_if_def cancel_event_def cancel_def)
  then have ac: "after_cancel (fst (poll ?p ?ticks ?s)) = Some [Callback (Some ''B'')]"
    by simp
  from cancel_stops_polling[of ?p ?ticks ?s "[Callback (Some ''B'')]" "[]"] tr ac
  show ?thesis
    by (simp add: pollRoomUpdates_def)
qed

subsection \<open>The game store when a remote call fails\<close>

lemma stopPolling_room [simp]: "room (stopPolling g) = room g"
  by (simp add: stopPolling_def split: option.splits)

lemma createNewRoom_mutate_fails:
  assumes "fst (mutate envM CREATE_ROOM (Some [(''gameType'', VStr gameType)]) s) = Inl e"
  shows "fst (createNewRoom envM envQ gameType g s) = Inl e \<and>
         room (fst (snd (createNewRoom envM envQ gameType g s))) = room g"
  using assms
  by (cases "mutate envM CREATE_ROOM (Some [(''gameType'', VStr gameType)]) s")
     (auto simp: createNewRoom_def createRoom_def Let_def)

lemma createNewRoom_query_fails:
  assumes "createRoom envM gameType s = (Inr created, s1, t1)"
      and "fst (query envQ GET_ROOM None s1) = Inl e"
  shows "fst (createNewRoom envM envQ gameType g s) = Inl e \<and>
         room (fst (snd (createNewRoom envM envQ gameType g s))) = room g"
  using assms
  by (cases "query envQ GET_ROOM None s1")
     (auto simp: createNewRoom_def getRoom_def Let_def)

lemma joinExistingRoom_mutate_fails:
  assumes "fst (mutate envM JOIN_ROOM (Some [(''hostChainId'', VStr hostChainId)]) s) = Inl e"
  shows "fst (joinExistingRoom envM hostChainId g s) = Inl e \<and>
         room (fst (snd (joinExistingRoom envM hostChainId g s))) = room g"
  using assms
  by (cases "mutate envM JOIN_ROOM (Some [(''hostChainId'', VStr hostChainId)]) s")
     (auto simp: joinExistingRoom_def joinRoom_def Let_def)

lemma submitMove_mutate_fails:
  assumes "fst (mutate envM MAKE_MOVE
                  (Some [(''primary'', VInt (primary moveData)),
                         (''secondary'',
                          case secondary moveData of None \<Rightarrow> VNull | Some x \<Rightarrow> VStr x)]) s)
           = Inl e"
  shows "fst (submitMove envM envQ moveData g s) = Inl e \<and>
         room (fst (snd (submitMove envM envQ moveData g s))) = room g"
  using assms
  by (cases "mutate envM MAKE_MOVE
                  (Some [(''primary'', VInt (primary moveData)),
                         (''secondary'',
                          case secondary moveData of None \<Rightarrow> VNull | Some x \<Rightarrow> VStr x)]) s")
     (auto simp: submitMove_def makeMove_def Let_def)

lemma submitMove_sync_fails:
  assumes "makeMove envM moveData s = (Inr (), s1, t1)"
      and "fst (queryWithSync envQ GET_ROOM None s1) = Inl e"
  shows "fst (submitMove envM envQ moveData g s) = Inr () \<and>
         room (fst (snd (submitMove envM envQ moveData g s))) = room g"
  using assms
  by (cases "queryWithSync envQ GET_ROOM None s1")
     (auto simp: submitMove_def syncRoom_def getRoomSynced_def Let_def)

text \<open>
  \<^verbatim>\<open>leaveCurrentRoom\<close> has no \<^verbatim>\<open>throw\<close> in its \<^verbatim>\<open>catch\<close>: a failed \<^verbatim>\<open>mutate\<close> is
  recorded in the store's \<^verbatim>\<open>error\<close> and the call resolves.
\<close>

lemma leaveCurrentRoom_mutate_fails:
  assumes "fst (mutate envM LEAVE_ROOM None s) = Inl e"
  shows "fst (leaveCurrentRoom envM g s) = Inr () \<and>
         room (fst (snd (leaveCurrentRoom envM g s))) = room g \<and>
         error (fst (snd (leaveCurrentRoom envM g s))) =
           Some (message_or ''Failed to leave room'' e)"
  using assms
  by (cases "mutate envM LEAVE_ROOM None s")
     (auto simp: leaveCurrentRoom_def leaveRoom_def Let_def)

text \<open>
  C5, as amended. \<^verbatim>\<open>createNewRoom\<close>, \<^verbatim>\<open>joinExistingRoom\<close> and \<^verbatim>\<open>submitMove\<close> reject
  with the very error of their \<^verbatim>\<open>mutate\<close> call, and \<^verbatim>\<open>createNewRoom\<close> with that of the
  \<^verbatim>\<open>query\<close> that follows; an error of the synchronised read that follows the move of
  \<^verbatim>\<open>submitMove\<close> is caught in \<^verbatim>\<open>syncRoom\<close>, and \<^verbatim>\<open>submitMove\<close> resolves. In each of
  these cases, and when the \<^verbatim>\<open>mutate\<close> of \<^verbatim>\<open>leaveCurrentRoom\<close> fails, the stored room
  is the one from before the call.
\<close>

theorem store_failures:
  "(fst (mutate envM CREATE_ROOM (Some [(''gameType'', VStr gameType)]) s) = Inl e \<longrightarrow>
      fst (createNewRoom envM envQ gameType g s) = Inl e \<and>
      room (fst (snd (createNewRoom envM envQ gameType g s))) = room g) \<and>
   (createRoom envM gameType s = (Inr created, s1, t1) \<and>
    fst (query envQ GET_ROOM None s1) = Inl e \<longrightarrow>
      fst (createNewRoom envM envQ gameType g s) = Inl e \<and>
      room (fst (snd (createNewRoom envM envQ gameType g s))) = room g) \<and>
   (fst (mutate envM JOIN_ROOM (Some [(''hostChainId'', VStr hostChainId)]) s) = Inl e \<longrightarrow>
      fst (joinExistingRoom envM hostChainId g s) = Inl e \<and>
      room (fst (snd (joinExistingRoom envM hostChainId g s))) = room g) \<and>
   (fst (mutate envM MAKE_MOVE
           (Some [(''primary'', VInt (primary moveData)),
                  (''secondary'',
                   case secondary moveData of None \<Rightarrow> VNull | Some x \<Rightarrow> VStr x)]) s)
      = Inl e \<longrightarrow>
      fst (submitMove envM envQ moveData g s) = Inl e \<and>
      room (fst (snd (submitMove envM envQ moveData g s))) = room g) \<and>
   (makeMove envM moveData s = (Inr (), s2, t2) \<and>
    fst (queryWithSync envQ GET_ROOM None s2) = Inl e \<longrightarrow>
      fst (submitMove envM envQ moveData g s) = Inr () \<and>
      room (fst (snd (submitMove envM envQ moveData g s))) = room g) \<and>
   (fst (mutate envM LEAVE_ROOM None s) = Inl e \<longrightarrow>
      room (fst (snd (leaveCurrentRoom envM g s))) = room g)"
  using createNewRoom_mutate_fails[of envM gameType s e envQ g]
        createNewRoom_query_fails[of envM gameType s created s1 t1 envQ e g]
        joinExistingRoom_mutate_fails[of envM hostChainId s e g]
        submitMove_mutate_fails[of envM moveData s e envQ g]
        submitMove_sync_fails[of envM moveData s s2 t2 envQ e g]
        leaveCurrentRoom_mutate_fails[of envM s e g]
  by blast

lemmas store_eval =
  createNewRoom_def joinExistingRoom_def leaveCurrentRoom_def submitMove_def syncRoom_def
  createRoom_def joinRoom_def leaveRoom_def makeMove_def getRoom_def getRoomSynced_def
  room_of_def stopPolling_def empty_store_def CREATE_ROOM_def JOIN_ROOM_def LEAVE_ROOM_def
  MAKE_MOVE_def GET_ROOM_def

theorem store_failures_witness:
  "fst (createNewRoom (rejecting (Error ''boom'') :: unit call_env) (rejecting (Error ''down'')) ''Chess''
         (empty_store\<lparr>room := Some ''room-1''\<rparr>) (session ''chain-me'' ''0xabc'' ''0xauto''))
     = Inl (Error ''boom'') \<and>
   room (fst (snd (createNewRoom (rejecting (Error ''boom'') :: unit call_env) (rejecting (Error ''down''))
         ''Chess'' (empty_store\<lparr>room := Some ''room-1''\<rparr>)
         (session ''chain-me'' ''0xabc'' ''0xauto'')))) = Some ''room-1'' \<and>
   fst (joinExistingRoom (rejecting (Error ''boom'') :: unit call_env) ''chain-host''
         (empty_store\<lparr>room := Some ''room-1''\<rparr>) (session ''chain-me'' ''0xabc'' ''0xauto''))
     = Inl (Error ''boom'') \<and>
   fst (submitMove (rejecting (Error ''boom'') :: unit call_env) (rejecting (Error ''down''))
         \<lparr>primary = 3, secondary = None\<rparr> (empty_store\<lparr>room := Some ''room-1''\<rparr>)
         (session ''chain-me'' ''0xabc'' ''0xauto'')) = Inl (Error ''boom'') \<and>
   room (fst (snd (leaveCurrentRoom (rejecting (Error ''boom'') :: unit call_env)
         (empty_store\<lparr>room := Some ''room-1''\<rparr>) (session ''chain-me'' ''0xabc'' ''0xauto''))))
     = Some ''room-1'' \<and>
   fst (createNewRoom (answering (ok ()) SyncedNoInbox) (rejecting (Error ''down'')) ''Chess''
         (empty_store\<lparr>room := Some ''room-1''\<rparr>) (session ''chain-me'' ''0xabc'' ''0xauto''))
     = Inl (Error ''down'') \<and>
   fst (submitMove (answering (ok ()) SyncedNoInbox) (rejecting (Error ''down''))
         \<lparr>primary = 3, secondary = None\<rparr> (empty_store\<lparr>room := Some ''room-1''\<rparr>)
         (session ''chain-me'' ''0xabc'' ''0xauto'')) = Inr () \<and>
   room (fst (snd (submitMove (answering (ok ()) SyncedNoInbox) (rejecting (Error ''down''))
         \<lparr>primary = 3, secondary = None\<rparr> (empty_store\<lparr>room := Some ''room-1''\<rparr>)
         (session ''chain-me'' ''0xabc'' ''0xauto'')))) = Some ''room-1''"
proof -
  let ?s = "session ''chain-me'' ''0xabc'' ''0xauto''"
  let ?g = "empty_store\<lparr>room := Some ''room-1''\<rparr> :: string game_state"
  let ?no = "rejecting (Error ''boom'') :: unit call_env"
  let ?yes = "answering (ok ()) SyncedNoInbox :: unit call_env"
  let ?down = "rejecting (Error ''down'') :: string option call_env"
  let ?mv = "\<lparr>primary = 3, secondary = None\<rparr>"
  let ?c = "createRoom ?yes ''Chess'' ?s"
  let ?m = "makeMove ?yes ?mv ?s"
  have a1: "fst (mutate ?no CREATE_ROOM (Some [(''gameType'', VStr ''Chess'')]) ?s) =
      Inl (Error ''boom'')"
    and a3: "fst (mutate ?no JOIN_ROOM (Some [(''hostChainId'', VStr ''chain-host'')]) ?s) =
      Inl (Error ''boom'')"
    and a4: "fst (mutate ?no MAKE_MOVE
           (Some [(''primary'', VInt (primary ?mv)),
                  (''secondary'',
                   case secondary ?mv of None \<Rightarrow> VNull | Some x \<Rightarrow> VStr x)]) ?s)
      = Inl (Error ''boom'')"
    and a6: "fst (mutate ?no LEAVE_ROOM None ?s) = Inl (Error ''boom'')"
    by (simp_all add: adapter_eval)
  have b2: "?c = (Inr ''chain-me'', fst (snd ?c), snd (snd ?c))"
    by (simp add: createRoom_def adapter_eval)
  have b2': "fst (query ?down GET_ROOM None (fst (snd ?c))) = Inl (Error ''down'')"
    by (simp add: createRoom_def adapter_eval)
  have b5: "?m = (Inr (), fst (snd ?m), snd (snd ?m))"
    by (simp add: makeMove_def adapter_eval)
  have b5': "fst (queryWithSync ?down GET_ROOM None (fst (snd ?m))) = Inl (Error ''down'')"
    by (simp add: makeMove_def adapter_eval)
  note no = store_failures[of ?no "''Chess''" ?s "Error ''boom''" ?down ?g "''chain-me''"
         "fst (snd ?c)" "snd (snd ?c)" "''chain-host''" ?mv "fst (snd ?m)" "snd (snd ?m)"]
  note yes = store_failures[of ?yes "''Chess''" ?s "Error ''down''" ?down ?g "''chain-me''"
         "fst (snd ?c)" "snd (snd ?c)" "''chain-host''" ?mv "fst (snd ?m)" "snd (snd ?m)"]
  have rg: "room ?g = Some ''room-1''"
    by (simp add: empty_store_def)
  have r1: "fst (createNewRoom ?no ?down ''Chess'' ?g ?s) = Inl (Error ''boom'') \<and>
            room (fst (snd (createNewRoom ?no ?down ''Chess'' ?g ?s))) = room ?g"
    using no a1 by blast
  have r3: "fst (joinExistingRoom ?no ''chain-host'' ?g ?s) = Inl (Error ''boom'')"
    using no a3 by blast
  have r4: "fst (submitMove ?no ?down ?mv ?g ?s) = Inl (Error ''boom'')"
    using no a4 by blast
  have r6: "room (fst (snd (leaveCurrentRoom ?no ?g ?s))) = room ?g"
    using no a6 by blast
  have r2: "fst (createNewRoom ?yes ?down ''Chess'' ?g ?s) = Inl (Error ''down'')"
    using yes b2 b2' by blast
  have r5: "fst (submitMove ?yes ?down ?mv ?g ?s) = Inr () \<and>
            room (fst (snd (submitMove ?yes ?down ?mv ?g ?s))) = room ?g"
    using yes b5 b5' by blast
  show ?thesis
    using r1 r2 r3 r4 r5 r6 unfolding rg by blast
qed

text \<open>
  The claim as stated fails for \<^verbatim>\<open>submitMove\<close>: the move goes through, the synchronised
  read that follows is rejected, and the call resolves without surfacing the error.
\<close>

theorem submitMove_swallows_counterexample:
  "fst (makeMove (answering (ok ()) SyncedNoInbox) \<lparr>primary = 3, secondary = None\<rparr>
         (session ''chain-me'' ''0xabc'' ''0xauto'')) = Inr () \<and>
   fst (queryWithSync (rejecting (Error ''network down'')) GET_ROOM None
         (fst (snd (makeMove (answering (ok ()) SyncedNoInbox) \<lparr>primary = 3, secondary = None\<rparr>
                      (session ''chain-me'' ''0xabc'' ''0xauto''))))) =
     (Inl (Error ''network down'') :: thrown + string option option) \<and>
   fst (submitMove (answering (ok ()) SyncedNoInbox) (rejecting (Error ''network down''))
         \<lparr>primary = 3, secondary = None\<rparr> (empty_store :: string game_state)
         (session ''chain-me'' ''0xabc'' ''0xauto'')) = Inr ()"
  by (simp add: store_eval adapter_eval)

end
